theory Spec2Isabelle
  imports Main "HOL-Library.AList" "HOL-Library.Sublist"
begin

section \<open>Data model\<close>

text \<open>
  The broker keeps its state in JavaScript \<open>Map\<close> objects with string keys.  A \<open>Map\<close>
  iterates in insertion order, \<open>set\<close> on a present key replaces the value in place and on
  an absent key appends, \<open>delete\<close> removes the entry.  An association list with
  \<open>AList.update\<close>, \<open>AList.delete\<close> and \<open>map_of\<close> behaves the same way, so the loops of
  the source that return at the first match can be followed entry by entry.

  Identifiers are strings.  A JavaScript guard \<open>!id\<close> holds for \<open>undefined\<close>, \<open>null\<close> and
  the empty string alike; all of them are the empty string here.  Timestamps are epoch
  milliseconds (\<open>int\<close>); every function that reads the clock takes the reading as an
  argument \<open>now\<close>, and the several reads inside one synchronous call are one instant.
\<close>

abbreviation Map_get :: "('k \<times> 'v) list \<Rightarrow> 'k \<Rightarrow> 'v option" where
  "Map_get m k \<equiv> map_of m k"

abbreviation Map_has :: "('k \<times> 'v) list \<Rightarrow> 'k \<Rightarrow> bool" where
  "Map_has m k \<equiv> map_of m k \<noteq> None"

abbreviation Map_set :: "'k \<Rightarrow> 'v \<Rightarrow> ('k \<times> 'v) list \<Rightarrow> ('k \<times> 'v) list" where
  "Map_set k v m \<equiv> AList.update k v m"

abbreviation Map_delete :: "'k \<Rightarrow> ('k \<times> 'v) list \<Rightarrow> ('k \<times> 'v) list" where
  "Map_delete k m \<equiv> AList.delete k m"

datatype session_status = Active | Ended

record session =
  kioskId :: string
  monitorId :: string
  monitorSocketId :: string
  startedAt :: int
  lastActivityAt :: int
  status :: session_status
  endedAt :: "int option"

type_synonym sessions = "(string \<times> session) list"

section \<open>Session state (state/sessions.state.js)\<close>

datatype session_error = ArgumentsRequired | SessionAlreadyExists string

text \<open>\<open>createSession\<close>: both throws of the source are \<open>Inl\<close> results.\<close>

definition createSession ::
  "string \<Rightarrow> string \<Rightarrow> string \<Rightarrow> int \<Rightarrow> sessions \<Rightarrow> session_error + (session \<times> sessions)" where
  "createSession kid mid msid now ss =
    (if kid = [] \<or> mid = [] \<or> msid = [] then Inl ArgumentsRequired
     else if Map_has ss kid then Inl (SessionAlreadyExists kid)
     else
       let sessionData = \<lparr> kioskId = kid, monitorId = mid, monitorSocketId = msid,
                            startedAt = now, lastActivityAt = now, status = Active,
                            endedAt = None \<rparr>
       in Inr (sessionData, Map_set kid sessionData ss))"

text \<open>\<open>endSession\<close>: the returned object is a copy marked ended; the entry is deleted.\<close>

definition endSession :: "string \<Rightarrow> int \<Rightarrow> sessions \<Rightarrow> session option \<times> sessions" where
  "endSession kid now ss =
    (if kid = [] then (None, ss)
     else case Map_get ss kid of
       None \<Rightarrow> (None, ss)
     | Some s \<Rightarrow> (Some (s\<lparr> endedAt := Some now, status := Ended \<rparr>), Map_delete kid ss))"

text \<open>
  \<open>endSessionByMonitorSocket\<close>, the draft of lines 109-129: first collect the keys of all
  sessions of the socket, then end each of them.
\<close>

fun endEach :: "string list \<Rightarrow> int \<Rightarrow> session list \<Rightarrow> sessions \<Rightarrow> session list \<times> sessions" where
  "endEach [] now ended ss = (ended, ss)"
| "endEach (kid # kids) now ended ss =
    (case endSession kid now ss of
       (None, ss') \<Rightarrow> endEach kids now ended ss'
     | (Some s, ss') \<Rightarrow> endEach kids now (ended @ [s]) ss')"

definition endSessionByMonitorSocket :: "string \<Rightarrow> int \<Rightarrow> sessions \<Rightarrow> session list \<times> sessions" where
  "endSessionByMonitorSocket msid now ss =
    (if msid = [] then ([], ss)
     else
       let kioskIdsToEnd = map fst (filter (\<lambda>(kid, s). monitorSocketId s = msid) ss)
       in endEach kioskIdsToEnd now [] ss)"

text \<open>
  \<open>endSessionByMonitorSocket\<close>, the draft of lines 378-390: the loop returns from inside
  the iteration, at the first session of the socket.
\<close>

fun endFirstOf :: "string \<Rightarrow> int \<Rightarrow> sessions \<Rightarrow> sessions \<Rightarrow> session option \<times> sessions" where
  "endFirstOf msid now [] ss = (None, ss)"
| "endFirstOf msid now ((kid, s) # rest) ss =
    (if monitorSocketId s = msid then endSession kid now ss
     else endFirstOf msid now rest ss)"

definition endSessionByMonitorSocket_first ::
  "string \<Rightarrow> int \<Rightarrow> sessions \<Rightarrow> session option \<times> sessions" where
  "endSessionByMonitorSocket_first msid now ss =
    (if msid = [] then (None, ss) else endFirstOf msid now ss ss)"

definition endSessionByKiosk :: "string \<Rightarrow> int \<Rightarrow> sessions \<Rightarrow> session option \<times> sessions" where
  "endSessionByKiosk kid now ss = endSession kid now ss"

definition getSession :: "string \<Rightarrow> sessions \<Rightarrow> session option" where
  "getSession kid ss = (if kid = [] then None else Map_get ss kid)"

definition updateSessionActivity :: "string \<Rightarrow> int \<Rightarrow> sessions \<Rightarrow> bool \<times> sessions" where
  "updateSessionActivity kid now ss =
    (if kid = [] then (False, ss)
     else case Map_get ss kid of
       None \<Rightarrow> (False, ss)
     | Some s \<Rightarrow> (True, Map_set kid (s\<lparr> lastActivityAt := now \<rparr>) ss))"

definition hasActiveSession :: "string \<Rightarrow> sessions \<Rightarrow> bool" where
  "hasActiveSession kid ss =
    (if kid = [] then False
     else case Map_get ss kid of None \<Rightarrow> False | Some s \<Rightarrow> status s = Active)"

definition validateSessionOwnership :: "string \<Rightarrow> string \<Rightarrow> sessions \<Rightarrow> bool" where
  "validateSessionOwnership kid msid ss =
    (if kid = [] \<or> msid = [] then False
     else case Map_get ss kid of
       None \<Rightarrow> False
     | Some s \<Rightarrow> if status s \<noteq> Active then False else monitorSocketId s = msid)"

definition SESSION_TIMEOUT_MS :: int where
  "SESSION_TIMEOUT_MS = 5 * 60 * 1000"

text \<open>
  \<open>getTimedOutSessions\<close>: the loop over the entries, pushing a copy of each timed-out
  session (with the key written into its \<open>kioskId\<close> field) onto the result.
\<close>

fun timedOutLoop :: "int \<Rightarrow> int \<Rightarrow> sessions \<Rightarrow> session list \<Rightarrow> session list" where
  "timedOutLoop timeoutMs now [] timedOut = timedOut"
| "timedOutLoop timeoutMs now ((kid, s) # rest) timedOut =
    (if status s \<noteq> Active then timedOutLoop timeoutMs now rest timedOut
     else
       let inactivityMs = now - lastActivityAt s
       in if inactivityMs > timeoutMs
          then timedOutLoop timeoutMs now rest (timedOut @ [s\<lparr> kioskId := kid \<rparr>])
          else timedOutLoop timeoutMs now rest timedOut)"

definition getTimedOutSessions :: "int \<Rightarrow> int \<Rightarrow> sessions \<Rightarrow> session list" where
  "getTimedOutSessions timeoutMs now ss = timedOutLoop timeoutMs now ss []"

section \<open>Presence registries (state/kiosks.state.js, state/monitors.state.js)\<close>

datatype client_status = Online | Offline

text \<open>
  One record serves both registries: \<open>clientKey\<close> is the field \<open>kioskId\<close> of a kiosk
  entry and the field \<open>monitorId\<close> of a monitor entry.
\<close>

record client_data =
  clientKey :: string
  socketId :: string
  registeredAt :: int
  lastSeenAt :: int
  clientStatus :: client_status

type_synonym registry = "(string \<times> client_data) list"

datatype registry_error = IdsRequired

definition registerKiosk :: "string \<Rightarrow> string \<Rightarrow> int \<Rightarrow> registry \<Rightarrow> registry_error + (client_data \<times> registry)" where
  "registerKiosk kid sid now ks =
    (if kid = [] \<or> sid = [] then Inl IdsRequired
     else
       let kioskData = \<lparr> clientKey = kid, socketId = sid, registeredAt = now,
                          lastSeenAt = now, clientStatus = Online \<rparr>
       in Inr (kioskData, Map_set kid kioskData ks))"

definition removeKiosk :: "string \<Rightarrow> registry \<Rightarrow> bool \<times> registry" where
  "removeKiosk kid ks =
    (if kid = [] then (False, ks) else (Map_has ks kid, Map_delete kid ks))"

definition getKiosk :: "string \<Rightarrow> registry \<Rightarrow> client_data option" where
  "getKiosk kid ks = (if kid = [] then None else Map_get ks kid)"

definition getAllKiosks :: "registry \<Rightarrow> client_data list" where
  "getAllKiosks ks = map snd ks"

definition updateLastSeen :: "string \<Rightarrow> int \<Rightarrow> registry \<Rightarrow> bool \<times> registry" where
  "updateLastSeen kid now ks =
    (if kid = [] then (False, ks)
     else case Map_get ks kid of
       None \<Rightarrow> (False, ks)
     | Some k \<Rightarrow> (True, Map_set kid (k\<lparr> lastSeenAt := now, clientStatus := Online \<rparr>) ks))"

definition markOffline :: "string \<Rightarrow> int \<Rightarrow> registry \<Rightarrow> bool \<times> registry" where
  "markOffline kid now ks =
    (if kid = [] then (False, ks)
     else case Map_get ks kid of
       None \<Rightarrow> (False, ks)
     | Some k \<Rightarrow> (True, Map_set kid (k\<lparr> clientStatus := Offline, lastSeenAt := now \<rparr>) ks))"

definition isKioskOnline :: "string \<Rightarrow> registry \<Rightarrow> bool" where
  "isKioskOnline kid ks =
    (if kid = [] then False
     else case Map_get ks kid of None \<Rightarrow> False | Some k \<Rightarrow> clientStatus k = Online)"

definition registerMonitor :: "string \<Rightarrow> string \<Rightarrow> int \<Rightarrow> registry \<Rightarrow> registry_error + (client_data \<times> registry)" where
  "registerMonitor mid sid now ms =
    (if mid = [] \<or> sid = [] then Inl IdsRequired
     else
       let monitorData = \<lparr> clientKey = mid, socketId = sid, registeredAt = now,
                            lastSeenAt = now, clientStatus = Online \<rparr>
       in Inr (monitorData, Map_set mid monitorData ms))"

definition removeMonitor :: "string \<Rightarrow> registry \<Rightarrow> bool \<times> registry" where
  "removeMonitor mid ms =
    (if mid = [] then (False, ms) else (Map_has ms mid, Map_delete mid ms))"

definition getMonitor :: "string \<Rightarrow> registry \<Rightarrow> client_data option" where
  "getMonitor mid ms = (if mid = [] then None else Map_get ms mid)"

section \<open>Rate limiter (utils/rate.limiter.js)\<close>

type_synonym rate_store = "(string \<times> int list) list"

text \<open>
  \<open>DEFAULT_LIMITS\<close> holds the own properties of the source's object literal; no caller in
  the repository changes it (\<open>setRateLimit\<close> is never called).
\<close>

definition DEFAULT_LIMITS :: "(string \<times> int) list" where
  "DEFAULT_LIMITS =
    [(''crew-sign-on'', 10), (''crew-sign-off'', 10), (''offer'', 30), (''answer'', 30),
     (''ice-candidate'', 60)]"

text \<open>
  \<open>DEFAULT_LIMITS\<close> is a plain object, so indexing it with a name it does not own finds
  what every object inherits from \<open>Object.prototype\<close>: a function under eleven names and
  the prototype object itself under \<open>__proto__\<close>.  All twelve values are truthy and none is
  a number.
\<close>

definition INHERITED_NAMES :: "string list" where
  "INHERITED_NAMES =
    [''constructor'', ''__defineGetter__'', ''__defineSetter__'', ''hasOwnProperty'',
     ''__lookupGetter__'', ''__lookupSetter__'', ''isPrototypeOf'', ''propertyIsEnumerable'',
     ''toString'', ''valueOf'', ''__proto__'', ''toLocaleString'']"

text \<open>
  A value used as a limit: a number, or something that is not one (an inherited function
  or object; \<open>undefined\<close> where the source leaves the field out).
\<close>

datatype limit_value = Ceiling int | NoNumber

text \<open>
  \<open>DEFAULT_LIMITS[eventType] || 60\<close>: an own entry (60 if it were zero), else the
  inherited value, else 60.
\<close>

definition getRateLimit :: "string \<Rightarrow> limit_value" where
  "getRateLimit eventType =
    (case Map_get DEFAULT_LIMITS eventType of
       Some l \<Rightarrow> if l = 0 then Ceiling 60 else Ceiling l
     | None \<Rightarrow> if eventType \<in> set INHERITED_NAMES then NoNumber else Ceiling 60)"

definition rateKey :: "string \<Rightarrow> string \<Rightarrow> string" where
  "rateKey clientId eventType = clientId @ '':'' @ eventType"

definition cleanupOldEntries :: "string \<Rightarrow> string \<Rightarrow> int \<Rightarrow> rate_store \<Rightarrow> rate_store" where
  "cleanupOldEntries clientId eventType now store =
    (let key = rateKey clientId eventType in
     case Map_get store key of
       None \<Rightarrow> store
     | Some entries \<Rightarrow>
         let oneMinuteAgo = now - 60000;
             filtered = filter (\<lambda>timestamp. timestamp > oneMinuteAgo) entries
         in if length filtered = 0 then Map_delete key store
            else Map_set key filtered store)"

text \<open>
  The result of \<open>checkRateLimit\<close>.  \<open>remaining\<close> is \<open>None\<close> when the source computes
  \<open>NaN\<close>; the early return has no \<open>current\<close> and \<open>limit\<close> fields, which are 0 and
  \<open>NoNumber\<close> here.
\<close>

record rate_result =
  allowed :: bool
  remaining :: "int option"
  resetAt :: "int option"
  current :: int
  limit :: limit_value

text \<open>
  \<open>checkRateLimit\<close>.  The optional third parameter is \<open>None\<close> for the source's default
  \<open>null\<close>.  A comparison \<open>length < eventLimit\<close> with a limit that is not a number is false
  (the limit converts to \<open>NaN\<close>), and \<open>Math.max(0, eventLimit - length)\<close> is \<open>NaN\<close>.
\<close>

definition checkRateLimit ::
  "string \<Rightarrow> string \<Rightarrow> int option \<Rightarrow> int \<Rightarrow> rate_store \<Rightarrow> rate_result \<times> rate_store" where
  "checkRateLimit clientId eventType lim now store =
    (if clientId = [] \<or> eventType = []
     then (\<lparr> allowed = False, remaining = Some 0, resetAt = None, current = 0,
             limit = NoNumber \<rparr>, store)
     else
       let eventLimit = (case lim of Some l \<Rightarrow> Ceiling l | None \<Rightarrow> getRateLimit eventType);
           key = rateKey clientId eventType;
           oneMinuteAgo = now - 60000;
           store1 = cleanupOldEntries clientId eventType now store;
           entries = (case Map_get store1 key of Some es \<Rightarrow> es | None \<Rightarrow> []);
           recentEntries = filter (\<lambda>timestamp. timestamp > oneMinuteAgo) entries;
           isAllowed = (case eventLimit of
                          Ceiling l \<Rightarrow> int (length recentEntries) < l
                        | NoNumber \<Rightarrow> False);
           rem = (case eventLimit of
                    Ceiling l \<Rightarrow> Some (max 0 (l - int (length recentEntries)))
                  | NoNumber \<Rightarrow> None);
           reset = (case recentEntries of t # _ \<Rightarrow> t + 60000 | [] \<Rightarrow> now + 60000)
       in if isAllowed
          then (\<lparr> allowed = True, remaining = rem, resetAt = Some reset,
                  current = int (length (recentEntries @ [now])), limit = eventLimit \<rparr>,
                Map_set key (recentEntries @ [now]) store1)
          else (\<lparr> allowed = False, remaining = rem, resetAt = Some reset,
                  current = int (length recentEntries), limit = eventLimit \<rparr>,
                store1))"

fun deleteKeys :: "string list \<Rightarrow> rate_store \<Rightarrow> rate_store" where
  "deleteKeys [] store = store"
| "deleteKeys (key # keys) store = deleteKeys keys (Map_delete key store)"

definition resetAllRateLimits :: "string \<Rightarrow> rate_store \<Rightarrow> rate_store" where
  "resetAllRateLimits clientId store =
    (if clientId = [] then store
     else
       let keysToDelete = filter (\<lambda>key. prefix (clientId @ '':'') key) (map fst store)
       in deleteKeys keysToDelete store)"

section \<open>Heartbeat store (utils/heartbeat.js)\<close>

type_synonym heartbeats = "(string \<times> int) list"

definition HEARTBEAT_TIMEOUT_MS :: int where
  "HEARTBEAT_TIMEOUT_MS = 90000"

text \<open>\<open>processHeartbeatPing\<close> returns \<open>{valid, timestamp}\<close>: \<open>Some now\<close> when valid.\<close>

definition processHeartbeatPing :: "string \<Rightarrow> int \<Rightarrow> heartbeats \<Rightarrow> int option \<times> heartbeats" where
  "processHeartbeatPing kid now hb =
    (if kid = [] then (None, hb) else (Some now, Map_set kid now hb))"

definition removeHeartbeat :: "string \<Rightarrow> heartbeats \<Rightarrow> heartbeats" where
  "removeHeartbeat kid hb = (if kid \<noteq> [] then Map_delete kid hb else hb)"

section \<open>Messages and errors\<close>

text \<open>
  Modelled from the spec: the role constants \<open>ROLES\<close> of auth/auth.middleware.js, which is
  not among the sources.  A connection carries exactly one of the two roles.
\<close>

datatype role = KIOSK | MONITOR

text \<open>
  Modelled from the spec: the table \<open>ERROR_CODES\<close> of errors/error.codes.js, which is not
  among the sources.  The constructors are the codes the controller names; distinct names
  are distinct codes.
\<close>

datatype error_code =
    AUTH_INVALID_ROLE | OPERATION_NOT_ALLOWED | INVALID_REQUEST | CLIENT_NOT_REGISTERED
  | SESSION_KIOSK_OFFLINE | SESSION_ALREADY_EXISTS | SESSION_NOT_FOUND | SESSION_NOT_AUTHORIZED
  | SIGNALING_MISSING_DATA | SIGNALING_INVALID_TARGET | SIGNALING_INVALID_PAIRING
  | SIGNALING_NO_SESSION | SIGNALING_UNAUTHORIZED_SENDER
  | CREW_EVENT_UNAUTHORIZED | CREW_EVENT_INVALID_PAYLOAD
  | RATE_LIMIT_EXCEEDED | INTERNAL_ERROR

text \<open>Values a client can put into a payload field, with JavaScript's truthiness.\<close>

datatype jsval = JUndefined | JNull | JBool bool | JNum int | JStr string | JObj string

fun truthy :: "jsval \<Rightarrow> bool" where
  "truthy JUndefined = False"
| "truthy JNull = False"
| "truthy (JBool b) = b"
| "truthy (JNum n) = (n \<noteq> 0)"
| "truthy (JStr s) = (s \<noteq> [])"
| "truthy (JObj _) = True"

datatype details =
    NoDetails
  | ExistingMonitorId string
  | ResetAt int
  | ValidationErrors "string list"
  | RegistryFailure registry_error
  | SessionFailure session_error

datatype signal_kind = Offer | Answer | IceCandidate

datatype crew_kind = CrewSignOn | CrewSignOff

text \<open>A timestamp on a crew broadcast: the client's own value when truthy, else the server clock.\<close>

datatype stamp = ClientStamp jsval | ServerStamp int

datatype message =
    Error error_code details
  | KioskOnline string int
  | KioskRegistered string int
  | MonitorRegistered string "(string \<times> int) list" int
  | MonitoringStarted string string "int option" int
  | MonitoringStopped string int
  | Signal signal_kind string jsval
  | HeartbeatPong int
  | CrewEvent crew_kind jsval jsval stamp jsval
  | CrewAck crew_kind jsval int
  | KioskOffline string int string
  | SessionEnded string string string int
  | SessionTimeout string int

text \<open>
  An emission is a message with its recipient: one connection (\<open>socket.emit\<close>,
  \<open>targetSocket.emit\<close>) or a room (\<open>io.to(room).emit\<close>).  \<open>Uncaught\<close> marks a handler
  that ends with an exception no \<open>try\<close> of the controller catches.
\<close>

datatype emission = ToSocket string message | ToRoom string message | Uncaught

section \<open>Crew events (events/crew.events.js)\<close>

record crew_payload =
  employeeId :: jsval
  name :: jsval
  timestamp :: jsval
  payloadKioskId :: jsval

definition isNonEmptyString :: "jsval \<Rightarrow> bool" where
  "isNonEmptyString v = (case v of JStr s \<Rightarrow> s \<noteq> [] | _ \<Rightarrow> False)"

text \<open>\<open>validateCrewEventPayload\<close> returns the list of errors; \<open>isValid\<close> is its emptiness.\<close>

definition validateCrewEventPayload :: "crew_payload \<Rightarrow> string list" where
  "validateCrewEventPayload payload =
    (if \<not> isNonEmptyString (employeeId payload)
       then [''employeeId is required and must be a string''] else []) @
    (if \<not> isNonEmptyString (name payload)
       then [''name is required and must be a string''] else []) @
    (if \<not> isNonEmptyString (payloadKioskId payload)
       then [''kioskId is required and must be a string''] else [])"

definition crewEventData :: "crew_kind \<Rightarrow> int \<Rightarrow> crew_payload \<Rightarrow> message" where
  "crewEventData kind now payload =
    CrewEvent kind (employeeId payload) (name payload)
      (if truthy (timestamp payload) then ClientStamp (timestamp payload) else ServerStamp now)
      (payloadKioskId payload)"

definition broadcastCrewSignOn :: "int \<Rightarrow> crew_payload \<Rightarrow> emission list" where
  "broadcastCrewSignOn now payload = [ToRoom ''monitors'' (crewEventData CrewSignOn now payload)]"

definition broadcastCrewSignOff :: "int \<Rightarrow> crew_payload \<Rightarrow> emission list" where
  "broadcastCrewSignOff now payload = [ToRoom ''monitors'' (crewEventData CrewSignOff now payload)]"

section \<open>The connection controller (socket/index.js)\<close>

record broker =
  kiosks :: registry
  monitors :: registry
  sessions :: sessions
  heartbeatStore :: heartbeats
  rateLimitStore :: rate_store

definition initial :: broker where
  "initial = \<lparr> kiosks = [], monitors = [], sessions = [], heartbeatStore = [],
               rateLimitStore = [] \<rparr>"

text \<open>
  What a handler reads from outside the broker: the clock and the transport's table of
  connected sockets (\<open>io.sockets.sockets\<close>).
\<close>

record env =
  clock :: int
  connected :: "string list"

text \<open>The closure of one connection: \<open>socket.data.role\<close>, \<open>socket.data.clientId\<close>, \<open>socket.id\<close>.\<close>

record conn =
  role :: role
  clientId :: string
  socketIdOf :: string

definition emitError :: "conn \<Rightarrow> error_code \<Rightarrow> details \<Rightarrow> emission" where
  "emitError c code d = ToSocket (socketIdOf c) (Error code d)"

definition on_register_kiosk :: "env \<Rightarrow> conn \<Rightarrow> broker \<Rightarrow> emission list \<times> broker" where
  "on_register_kiosk e c b =
    (if role c \<noteq> KIOSK then ([emitError c AUTH_INVALID_ROLE NoDetails], b)
     else case registerKiosk (clientId c) (socketIdOf c) (clock e) (kiosks b) of
       Inl err \<Rightarrow> ([emitError c INTERNAL_ERROR (RegistryFailure err)], b)
     | Inr (_, ks) \<Rightarrow>
         ([ToRoom ''monitors'' (KioskOnline (clientId c) (clock e)),
           ToSocket (socketIdOf c) (KioskRegistered (clientId c) (clock e))],
          b\<lparr> kiosks := ks \<rparr>))"

definition on_register_monitor :: "env \<Rightarrow> conn \<Rightarrow> broker \<Rightarrow> emission list \<times> broker" where
  "on_register_monitor e c b =
    (if role c \<noteq> MONITOR then ([emitError c AUTH_INVALID_ROLE NoDetails], b)
     else case registerMonitor (clientId c) (socketIdOf c) (clock e) (monitors b) of
       Inl err \<Rightarrow> ([emitError c INTERNAL_ERROR (RegistryFailure err)], b)
     | Inr (_, ms) \<Rightarrow>
         let onlineKiosks =
               map (\<lambda>k. (clientKey k, registeredAt k))
                 (filter (\<lambda>k. clientStatus k = Online) (getAllKiosks (kiosks b)))
         in ([ToSocket (socketIdOf c) (MonitorRegistered (clientId c) onlineKiosks (clock e))],
             b\<lparr> monitors := ms \<rparr>))"

text \<open>
  \<open>start-monitoring\<close>.  The read \<open>existingSession.monitorSocketId\<close> would throw on \<open>null\<close>;
  that branch is \<open>Uncaught\<close>, and cannot be reached since \<open>hasActiveSession\<close> just held.
\<close>

definition on_start_monitoring :: "env \<Rightarrow> conn \<Rightarrow> string \<Rightarrow> broker \<Rightarrow> emission list \<times> broker" where
  "on_start_monitoring e c kid b =
    (if role c \<noteq> MONITOR then ([emitError c OPERATION_NOT_ALLOWED NoDetails], b)
     else if kid = [] then ([emitError c INVALID_REQUEST NoDetails], b)
     else if \<not> isKioskOnline kid (kiosks b) then ([emitError c SESSION_KIOSK_OFFLINE NoDetails], b)
     else if hasActiveSession kid (sessions b) then
       (case getSession kid (sessions b) of
          None \<Rightarrow> ([Uncaught], b)
        | Some existingSession \<Rightarrow>
            if monitorSocketId existingSession \<noteq> socketIdOf c
            then ([emitError c SESSION_ALREADY_EXISTS
                     (ExistingMonitorId (monitorId existingSession))], b)
            else
              let (_, ss) = updateSessionActivity kid (clock e) (sessions b)
              in ([ToSocket (socketIdOf c) (MonitoringStarted kid kid None (clock e))],
                  b\<lparr> sessions := ss \<rparr>))
     else case createSession kid (clientId c) (socketIdOf c) (clock e) (sessions b) of
       Inl err \<Rightarrow> ([emitError c SESSION_NOT_AUTHORIZED (SessionFailure err)], b)
     | Inr (session, ss) \<Rightarrow>
         ([ToSocket (socketIdOf c) (MonitoringStarted kid kid (Some (startedAt session)) (clock e))],
          b\<lparr> sessions := ss \<rparr>))"

definition on_stop_monitoring :: "env \<Rightarrow> conn \<Rightarrow> string \<Rightarrow> broker \<Rightarrow> emission list \<times> broker" where
  "on_stop_monitoring e c kid b =
    (if role c \<noteq> MONITOR then ([emitError c OPERATION_NOT_ALLOWED NoDetails], b)
     else if kid = [] then ([emitError c INVALID_REQUEST NoDetails], b)
     else if \<not> hasActiveSession kid (sessions b) then ([emitError c SESSION_NOT_FOUND NoDetails], b)
     else if \<not> validateSessionOwnership kid (socketIdOf c) (sessions b)
       then ([emitError c SESSION_NOT_AUTHORIZED NoDetails], b)
     else
       let (_, ss) = endSession kid (clock e) (sessions b)
       in ([ToSocket (socketIdOf c) (MonitoringStopped kid (clock e))], b\<lparr> sessions := ss \<rparr>))"

text \<open>
  \<open>offer\<close>, \<open>answer\<close> and \<open>ice-candidate\<close> are three copies of one handler that differ in
  the event name and the payload field; \<open>forwardSignal\<close> is that handler.  When the rate
  limiter refuses with \<open>resetAt\<close> \<open>null\<close>, \<open>rateLimit.resetAt.toISOString()\<close> throws.
\<close>

definition signalEventType :: "signal_kind \<Rightarrow> string" where
  "signalEventType kind =
    (case kind of Offer \<Rightarrow> ''offer'' | Answer \<Rightarrow> ''answer'' | IceCandidate \<Rightarrow> ''ice-candidate'')"

definition forwardSignal ::
  "signal_kind \<Rightarrow> env \<Rightarrow> conn \<Rightarrow> string \<Rightarrow> jsval \<Rightarrow> broker \<Rightarrow> emission list \<times> broker" where
  "forwardSignal kind e c targetId blob b =
    (if \<not> (targetId \<noteq> [] \<and> truthy blob) then ([emitError c SIGNALING_MISSING_DATA NoDetails], b)
     else
       let (rateLimit, rs) =
             checkRateLimit (clientId c) (signalEventType kind) None (clock e) (rateLimitStore b);
           b1 = b\<lparr> rateLimitStore := rs \<rparr>
       in if \<not> allowed rateLimit then
            (case resetAt rateLimit of
               None \<Rightarrow> ([Uncaught], b1)
             | Some r \<Rightarrow> ([emitError c RATE_LIMIT_EXCEEDED (ResetAt r)], b1))
          else
            let senderRole = role c;
                targetKiosk = getKiosk targetId (kiosks b1);
                targetMonitor = getMonitor targetId (monitors b1)
            in if targetKiosk = None \<and> targetMonitor = None
               then ([emitError c SIGNALING_INVALID_TARGET NoDetails], b1)
               else
                 let targetRole = (if targetKiosk \<noteq> None then KIOSK else MONITOR);
                     targetSocketId =
                       (case targetKiosk of
                          Some k \<Rightarrow> socketId k
                        | None \<Rightarrow> (case targetMonitor of Some m \<Rightarrow> socketId m | None \<Rightarrow> []))
                 in if \<not> ((senderRole = KIOSK \<and> targetRole = MONITOR) \<or>
                           (senderRole = MONITOR \<and> targetRole = KIOSK))
                    then ([emitError c SIGNALING_INVALID_PAIRING NoDetails], b1)
                    else
                      let kid = (if senderRole = KIOSK then clientId c else targetId)
                      in if \<not> hasActiveSession kid (sessions b1)
                         then ([emitError c SIGNALING_NO_SESSION NoDetails], b1)
                         else
                           (case getSession kid (sessions b1) of
                              None \<Rightarrow> ([Uncaught], b1)
                            | Some session \<Rightarrow>
                                if senderRole = MONITOR \<and> monitorSocketId session \<noteq> socketIdOf c
                                then ([emitError c SIGNALING_UNAUTHORIZED_SENDER NoDetails], b1)
                                else if senderRole \<noteq> MONITOR \<and> kioskId session \<noteq> clientId c
                                then ([emitError c SIGNALING_UNAUTHORIZED_SENDER NoDetails], b1)
                                else
                                  let (_, ss) = updateSessionActivity kid (clock e) (sessions b1);
                                      b2 = b1\<lparr> sessions := ss \<rparr>
                                  in if targetSocketId \<in> set (connected e)
                                     then ([ToSocket targetSocketId (Signal kind (clientId c) blob)], b2)
                                     else ([emitError c SIGNALING_INVALID_TARGET NoDetails], b2)))"

definition on_offer :: "env \<Rightarrow> conn \<Rightarrow> string \<Rightarrow> jsval \<Rightarrow> broker \<Rightarrow> emission list \<times> broker" where
  "on_offer = forwardSignal Offer"

definition on_answer :: "env \<Rightarrow> conn \<Rightarrow> string \<Rightarrow> jsval \<Rightarrow> broker \<Rightarrow> emission list \<times> broker" where
  "on_answer = forwardSignal Answer"

definition on_ice_candidate :: "env \<Rightarrow> conn \<Rightarrow> string \<Rightarrow> jsval \<Rightarrow> broker \<Rightarrow> emission list \<times> broker" where
  "on_ice_candidate = forwardSignal IceCandidate"

definition on_heartbeat_ping :: "env \<Rightarrow> conn \<Rightarrow> broker \<Rightarrow> emission list \<times> broker" where
  "on_heartbeat_ping e c b =
    (if role c \<noteq> KIOSK then ([emitError c OPERATION_NOT_ALLOWED NoDetails], b)
     else
       let (result, hb) = processHeartbeatPing (clientId c) (clock e) (heartbeatStore b)
       in case result of
            None \<Rightarrow> ([], b\<lparr> heartbeatStore := hb \<rparr>)
          | Some ts \<Rightarrow>
              let (_, ks) = updateLastSeen (clientId c) (clock e) (kiosks b)
              in ([ToSocket (socketIdOf c) (HeartbeatPong ts)],
                  b\<lparr> heartbeatStore := hb, kiosks := ks \<rparr>))"

text \<open>
  \<open>crew-sign-on\<close> and \<open>crew-sign-off\<close> are two copies of one handler, \<open>crewEvent\<close>.  The
  payload is \<open>None\<close> when the client sent \<open>null\<close> or nothing: reading a field of it throws
  inside \<open>validateCrewEventPayload\<close>, after the rate limiter has counted the event.
\<close>

definition crewEventType :: "crew_kind \<Rightarrow> string" where
  "crewEventType kind = (case kind of CrewSignOn \<Rightarrow> ''crew-sign-on'' | CrewSignOff \<Rightarrow> ''crew-sign-off'')"

definition crewEvent ::
  "crew_kind \<Rightarrow> env \<Rightarrow> conn \<Rightarrow> crew_payload option \<Rightarrow> broker \<Rightarrow> emission list \<times> broker" where
  "crewEvent kind e c payloadOpt b =
    (if role c \<noteq> KIOSK then ([emitError c CREW_EVENT_UNAUTHORIZED NoDetails], b)
     else if getKiosk (clientId c) (kiosks b) = None
       then ([emitError c CLIENT_NOT_REGISTERED NoDetails], b)
     else
       let (rateLimit, rs) =
             checkRateLimit (clientId c) (crewEventType kind) None (clock e) (rateLimitStore b);
           b1 = b\<lparr> rateLimitStore := rs \<rparr>
       in if \<not> allowed rateLimit then
            (case resetAt rateLimit of
               None \<Rightarrow> ([Uncaught], b1)
             | Some r \<Rightarrow> ([emitError c RATE_LIMIT_EXCEEDED (ResetAt r)], b1))
          else
            (case payloadOpt of
               None \<Rightarrow> ([Uncaught], b1)
             | Some payload \<Rightarrow>
                 let errors = validateCrewEventPayload payload
                 in if errors \<noteq> []
                    then ([emitError c CREW_EVENT_INVALID_PAYLOAD (ValidationErrors errors)], b1)
                    else
                      let eventPayload = payload\<lparr> payloadKioskId := JStr (clientId c) \<rparr>
                      in ((case kind of
                             CrewSignOn \<Rightarrow> broadcastCrewSignOn (clock e) eventPayload
                           | CrewSignOff \<Rightarrow> broadcastCrewSignOff (clock e) eventPayload) @
                          [ToSocket (socketIdOf c) (CrewAck kind (employeeId payload) (clock e))],
                          b1)))"

definition on_crew_sign_on :: "env \<Rightarrow> conn \<Rightarrow> crew_payload option \<Rightarrow> broker \<Rightarrow> emission list \<times> broker" where
  "on_crew_sign_on = crewEvent CrewSignOn"

definition on_crew_sign_off :: "env \<Rightarrow> conn \<Rightarrow> crew_payload option \<Rightarrow> broker \<Rightarrow> emission list \<times> broker" where
  "on_crew_sign_off = crewEvent CrewSignOff"

text \<open>The kiosk branch of \<open>disconnect\<close>, the same in both drafts of the controller.\<close>

definition disconnectKiosk :: "env \<Rightarrow> conn \<Rightarrow> broker \<Rightarrow> emission list \<times> broker" where
  "disconnectKiosk e c b =
    (let hb = removeHeartbeat (clientId c) (heartbeatStore b);
         (_, ks1) = markOffline (clientId c) (clock e) (kiosks b);
         (endedSession, ss) = endSessionByKiosk (clientId c) (clock e) (sessions b);
         offline = [ToRoom ''monitors'' (KioskOffline (clientId c) (clock e) ''disconnect'')];
         ended = (case endedSession of
                    None \<Rightarrow> []
                  | Some s \<Rightarrow> [ToRoom ''monitors''
                       (SessionEnded (clientId c) (monitorId s) ''kiosk-disconnect'' (clock e))]);
         (_, ks2) = removeKiosk (clientId c) ks1
     in (offline @ ended, b\<lparr> heartbeatStore := hb, kiosks := ks2, sessions := ss \<rparr>))"

text \<open>
  \<open>disconnect\<close>, the draft of lines 1667-1748: the monitor branch ends every session
  returned by \<open>endSessionByMonitorSocket\<close> of lines 109-129.
\<close>

definition on_disconnect :: "env \<Rightarrow> conn \<Rightarrow> broker \<Rightarrow> emission list \<times> broker" where
  "on_disconnect e c b =
    (let (out, b1) =
           (case role c of
              KIOSK \<Rightarrow> disconnectKiosk e c b
            | MONITOR \<Rightarrow>
                let (endedSessions, ss) =
                      endSessionByMonitorSocket (socketIdOf c) (clock e) (sessions b);
                    (_, ms) = removeMonitor (clientId c) (monitors b)
                in (map (\<lambda>s. ToRoom ''monitors''
                          (SessionEnded (kioskId s) (clientId c) ''monitor-disconnect'' (clock e)))
                      endedSessions,
                    b\<lparr> sessions := ss, monitors := ms \<rparr>))
     in (out, b1\<lparr> rateLimitStore := resetAllRateLimits (clientId c) (rateLimitStore b1) \<rparr>))"

text \<open>
  \<open>disconnect\<close>, the draft of lines 682-741: the monitor branch takes one session or
  \<open>null\<close> from \<open>endSessionByMonitorSocket\<close> of lines 378-390.
\<close>

definition on_disconnect_first :: "env \<Rightarrow> conn \<Rightarrow> broker \<Rightarrow> emission list \<times> broker" where
  "on_disconnect_first e c b =
    (let (out, b1) =
           (case role c of
              KIOSK \<Rightarrow> disconnectKiosk e c b
            | MONITOR \<Rightarrow>
                let (endedSession, ss) =
                      endSessionByMonitorSocket_first (socketIdOf c) (clock e) (sessions b);
                    (_, ms) = removeMonitor (clientId c) (monitors b)
                in ((case endedSession of
                       None \<Rightarrow> []
                     | Some s \<Rightarrow> [ToRoom ''monitors''
                          (SessionEnded (kioskId s) (clientId c) ''monitor-disconnect'' (clock e))]),
                    b\<lparr> sessions := ss, monitors := ms \<rparr>))
     in (out, b1\<lparr> rateLimitStore := resetAllRateLimits (clientId c) (rateLimitStore b1) \<rparr>))"

section \<open>Periodic timers\<close>

text \<open>The session timeout checker of \<open>initializeSocket\<close>: the body of its \<open>setInterval\<close>.\<close>

fun timeoutEach :: "env \<Rightarrow> session list \<Rightarrow> emission list \<Rightarrow> sessions \<Rightarrow> emission list \<times> sessions" where
  "timeoutEach e [] out ss = (out, ss)"
| "timeoutEach e (s # rest) out ss =
    (let (_, ss') = endSession (kioskId s) (clock e) ss;
         ended = [ToRoom ''monitors''
                    (SessionEnded (kioskId s) (monitorId s) ''session-timeout'' (clock e))];
         notify = (if monitorSocketId s \<in> set (connected e)
                   then [ToSocket (monitorSocketId s) (SessionTimeout (kioskId s) (clock e))]
                   else [])
     in timeoutEach e rest (out @ ended @ notify) ss')"

definition sessionTimeoutChecker :: "env \<Rightarrow> broker \<Rightarrow> emission list \<times> broker" where
  "sessionTimeoutChecker e b =
    (let timedOutSessions = getTimedOutSessions SESSION_TIMEOUT_MS (clock e) (sessions b);
         (out, ss) = timeoutEach e timedOutSessions [] (sessions b)
     in (out, b\<lparr> sessions := ss \<rparr>))"

text \<open>\<open>checkHeartbeatTimeouts\<close> (utils/heartbeat.js): the loop over the heartbeat entries.\<close>

fun heartbeatLoop ::
  "int \<Rightarrow> heartbeats \<Rightarrow> string list \<Rightarrow> emission list \<Rightarrow> registry \<Rightarrow> sessions \<Rightarrow>
   string list \<times> emission list \<times> registry \<times> sessions" where
  "heartbeatLoop t [] timedOutKiosks out ks ss = (timedOutKiosks, out, ks, ss)"
| "heartbeatLoop t ((kid, lastHeartbeat) # rest) timedOutKiosks out ks ss =
    (let timeSinceLastHeartbeat = t - lastHeartbeat
     in if timeSinceLastHeartbeat > HEARTBEAT_TIMEOUT_MS \<and> isKioskOnline kid ks
        then
          let (_, ks') = markOffline kid t ks;
              (endedSession, ss') = endSessionByKiosk kid t ss;
              offline = [ToRoom ''monitors'' (KioskOffline kid t ''heartbeat-timeout'')];
              ended = (case endedSession of
                         None \<Rightarrow> []
                       | Some s \<Rightarrow> [ToRoom ''monitors''
                            (SessionEnded kid (monitorId s) ''kiosk-timeout'' t)])
          in heartbeatLoop t rest (timedOutKiosks @ [kid]) (out @ offline @ ended) ks' ss'
        else heartbeatLoop t rest timedOutKiosks out ks ss)"

definition checkHeartbeatTimeouts :: "env \<Rightarrow> broker \<Rightarrow> string list \<times> emission list \<times> broker" where
  "checkHeartbeatTimeouts e b =
    (let (timedOutKiosks, out, ks, ss) =
           heartbeatLoop (clock e) (heartbeatStore b) [] [] (kiosks b) (sessions b)
     in (timedOutKiosks, out, b\<lparr> kiosks := ks, sessions := ss \<rparr>))"

section \<open>Runs of the broker\<close>

datatype client_message =
    RegisterKiosk
  | RegisterMonitor
  | StartMonitoring string
  | StopMonitoring string
  | OfferMsg string jsval
  | AnswerMsg string jsval
  | IceCandidateMsg string jsval
  | HeartbeatPing
  | CrewSignOnMsg "crew_payload option"
  | CrewSignOffMsg "crew_payload option"
  | Disconnect

text \<open>
  The sources hold two drafts of the controller and of the session module.  They differ
  in the monitor branch of \<open>disconnect\<close> only: \<open>EndsAll\<close> is the pair of lines 1667-1748
  with 109-129, \<open>EndsFirst\<close> the pair of lines 682-741 with 378-390.
\<close>

datatype draft = EndsAll | EndsFirst

text \<open>
  An event is a message of one connection, a tick of one of the two timers, or a direct
  call of an exported operation of the session module.
\<close>

datatype event =
    FromClient conn client_message
  | SessionTimerTick
  | HeartbeatTimerTick
  | CallCreateSession string string string
  | CallEndSession string
  | CallEndSessionByMonitorSocket string
  | CallUpdateSessionActivity string

fun handle :: "draft \<Rightarrow> env \<Rightarrow> conn \<Rightarrow> client_message \<Rightarrow> broker \<Rightarrow> emission list \<times> broker" where
  "handle d e c RegisterKiosk b = on_register_kiosk e c b"
| "handle d e c RegisterMonitor b = on_register_monitor e c b"
| "handle d e c (StartMonitoring kid) b = on_start_monitoring e c kid b"
| "handle d e c (StopMonitoring kid) b = on_stop_monitoring e c kid b"
| "handle d e c (OfferMsg targetId blob) b = on_offer e c targetId blob b"
| "handle d e c (AnswerMsg targetId blob) b = on_answer e c targetId blob b"
| "handle d e c (IceCandidateMsg targetId blob) b = on_ice_candidate e c targetId blob b"
| "handle d e c HeartbeatPing b = on_heartbeat_ping e c b"
| "handle d e c (CrewSignOnMsg payload) b = on_crew_sign_on e c payload b"
| "handle d e c (CrewSignOffMsg payload) b = on_crew_sign_off e c payload b"
| "handle d e c Disconnect b =
    (case d of EndsAll \<Rightarrow> on_disconnect e c b | EndsFirst \<Rightarrow> on_disconnect_first e c b)"

fun step :: "draft \<Rightarrow> env \<Rightarrow> event \<Rightarrow> broker \<Rightarrow> emission list \<times> broker" where
  "step d e (FromClient c m) b = handle d e c m b"
| "step d e SessionTimerTick b = sessionTimeoutChecker e b"
| "step d e HeartbeatTimerTick b = (let (_, out, b') = checkHeartbeatTimeouts e b in (out, b'))"
| "step d e (CallCreateSession kid mid msid) b =
    (case createSession kid mid msid (clock e) (sessions b) of
       Inl _ \<Rightarrow> ([], b)
     | Inr (_, ss) \<Rightarrow> ([], b\<lparr> sessions := ss \<rparr>))"
| "step d e (CallEndSession kid) b = ([], b\<lparr> sessions := snd (endSession kid (clock e) (sessions b)) \<rparr>)"
| "step d e (CallEndSessionByMonitorSocket msid) b =
    ([], b\<lparr> sessions :=
         (case d of
            EndsAll \<Rightarrow> snd (endSessionByMonitorSocket msid (clock e) (sessions b))
          | EndsFirst \<Rightarrow> snd (endSessionByMonitorSocket_first msid (clock e) (sessions b))) \<rparr>)"
| "step d e (CallUpdateSessionActivity kid) b =
    ([], b\<lparr> sessions := snd (updateSessionActivity kid (clock e) (sessions b)) \<rparr>)"

text \<open>The states the broker can be in: started empty, then any events in any environment.\<close>

inductive reachable :: "draft \<Rightarrow> broker \<Rightarrow> bool" for d :: draft where
  reachable_initial: "reachable d initial"
| reachable_step: "reachable d b \<Longrightarrow> reachable d (snd (step d e ev b))"

section \<open>Auxiliary notions for the statements\<close>

text \<open>
  The shape every reachable session store has: one entry per key, no empty key, every
  stored session active, carrying its own key in \<open>kioskId\<close> and naming a monitor and
  a socket.
\<close>

definition sessions_ok :: "sessions \<Rightarrow> bool" where
  "sessions_ok ss \<longleftrightarrow>
     distinct (map fst ss) \<and>
     (\<forall>(k, s) \<in> set ss. k \<noteq> [] \<and> status s = Active \<and> kioskId s = k \<and>
        monitorId s \<noteq> [] \<and> monitorSocketId s \<noteq> [])"

text \<open>A sequence of calls of the session module on its own, each with its clock reading.\<close>

datatype session_call = CreateCall string string string | EndCall string | UpdateCall string

fun apply_call :: "int \<Rightarrow> session_call \<Rightarrow> sessions \<Rightarrow> sessions" where
  "apply_call t (CreateCall kid mid msid) ss =
    (case createSession kid mid msid t ss of Inl _ \<Rightarrow> ss | Inr (_, ss') \<Rightarrow> ss')"
| "apply_call t (EndCall kid) ss = snd (endSession kid t ss)"
| "apply_call t (UpdateCall kid) ss = snd (updateSessionActivity kid t ss)"

fun apply_calls :: "(int \<times> session_call) list \<Rightarrow> sessions \<Rightarrow> sessions" where
  "apply_calls [] ss = ss"
| "apply_calls ((t, c) # cs) ss = apply_calls cs (apply_call t c ss)"

text \<open>A run feeds events to the broker one after the other and collects what it emits.\<close>

fun run :: "draft \<Rightarrow> (env \<times> event) list \<Rightarrow> broker \<Rightarrow> emission list \<times> broker" where
  "run d [] b = ([], b)"
| "run d ((e, ev) # rest) b =
    (let (out, b') = step d e ev b; (outs, b'') = run d rest b' in (out @ outs, b''))"

text \<open>
  Concrete connections and states used to instantiate the theorems: two kiosks and two
  monitors, all four sockets connected; \<open>registered\<close> is the broker after the four have
  registered, \<open>monitoring\<close> after monitor M1 has then started to monitor kiosk K1.
\<close>

definition at :: "int \<Rightarrow> env" where
  "at t = \<lparr> clock = t, connected = [''sk1'', ''sk2'', ''sm1'', ''sm2''] \<rparr>"

definition kiosk1 :: conn where
  "kiosk1 = \<lparr> role = KIOSK, clientId = ''K1'', socketIdOf = ''sk1'' \<rparr>"

definition kiosk2 :: conn where
  "kiosk2 = \<lparr> role = KIOSK, clientId = ''K2'', socketIdOf = ''sk2'' \<rparr>"

definition monitor1 :: conn where
  "monitor1 = \<lparr> role = MONITOR, clientId = ''M1'', socketIdOf = ''sm1'' \<rparr>"

definition monitor2 :: conn where
  "monitor2 = \<lparr> role = MONITOR, clientId = ''M2'', socketIdOf = ''sm2'' \<rparr>"

definition entry :: "string \<Rightarrow> string \<Rightarrow> int \<Rightarrow> client_data" where
  "entry cid sid t = \<lparr> clientKey = cid, socketId = sid, registeredAt = t, lastSeenAt = t,
                        clientStatus = Online \<rparr>"

definition sessionOf :: "string \<Rightarrow> string \<Rightarrow> string \<Rightarrow> int \<Rightarrow> session" where
  "sessionOf kid mid msid t = \<lparr> kioskId = kid, monitorId = mid, monitorSocketId = msid,
     startedAt = t, lastActivityAt = t, status = Active, endedAt = None \<rparr>"

definition registered :: broker where
  "registered = snd (run EndsAll
     [(at 1000, FromClient kiosk1 RegisterKiosk), (at 1100, FromClient kiosk2 RegisterKiosk),
      (at 1200, FromClient monitor1 RegisterMonitor), (at 1300, FromClient monitor2 RegisterMonitor)]
     initial)"

definition monitoring :: broker where
  "monitoring = snd (step EndsAll (at 2000) (FromClient monitor1 (StartMonitoring ''K1'')) registered)"

text \<open>The \<open>kioskId\<close> field of an emitted crew event, whoever it is sent to.\<close>

fun crewAttribution :: "emission \<Rightarrow> jsval option" where
  "crewAttribution (ToRoom _ (CrewEvent _ _ _ _ kid)) = Some kid"
| "crewAttribution (ToSocket _ (CrewEvent _ _ _ _ kid)) = Some kid"
| "crewAttribution _ = None"

text \<open>
  The timestamps stored for a key of the rate limiter, those of them that a call at \<open>t\<close>
  retains, and runs of \<open>checkRateLimit\<close> calls \<open>(clientId, eventType, now)\<close>: the
  timestamps at which the calls of one client and event kind were allowed, and the store
  the run ends in.
\<close>

definition entriesOf :: "rate_store \<Rightarrow> string \<Rightarrow> int list" where
  "entriesOf store key = (case Map_get store key of Some es \<Rightarrow> es | None \<Rightarrow> [])"

definition recentOf :: "rate_store \<Rightarrow> string \<Rightarrow> int \<Rightarrow> int list" where
  "recentOf store key t = filter (\<lambda>x. x > t - 60000) (entriesOf store key)"




text \<open>
  \<open>getTimedOutSessions\<close> once more, with object identity: the heap is the list of all
  session objects, a reference is an index into it, the \<open>Map\<close> holds references, and
  \<open>{ ...session, kioskId }\<close> allocates a new object.  A \<open>Map\<close> entry always refers to a
  live object, so the loop reads \<open>h ! r\<close> only below \<open>length h\<close>.
\<close>

type_synonym heap = "session list"

definition alloc :: "session \<Rightarrow> heap \<Rightarrow> nat \<times> heap" where
  "alloc obj h = (length h, h @ [obj])"

fun timedOutLoop_heap ::
  "int \<Rightarrow> int \<Rightarrow> (string \<times> nat) list \<Rightarrow> heap \<Rightarrow> nat list \<Rightarrow> nat list \<times> heap" where
  "timedOutLoop_heap timeoutMs t [] h timedOut = (timedOut, h)"
| "timedOutLoop_heap timeoutMs t ((kid, r) # rest) h timedOut =
    (let session = h ! r
     in if status session \<noteq> Active then timedOutLoop_heap timeoutMs t rest h timedOut
        else
          let inactivityMs = t - lastActivityAt session
          in if inactivityMs > timeoutMs
             then
               let (r', h') = alloc (session\<lparr> kioskId := kid \<rparr>) h
               in timedOutLoop_heap timeoutMs t rest h' (timedOut @ [r'])
             else timedOutLoop_heap timeoutMs t rest h timedOut)"

definition getTimedOutSessions_heap ::
  "int \<Rightarrow> int \<Rightarrow> (string \<times> nat) list \<Rightarrow> heap \<Rightarrow> nat list \<times> heap" where
  "getTimedOutSessions_heap timeoutMs t entries h = timedOutLoop_heap timeoutMs t entries h []"

text \<open>The session store a heap and a \<open>Map\<close> of references stand for.\<close>

definition deref :: "heap \<Rightarrow> (string \<times> nat) list \<Rightarrow> sessions" where
  "deref h entries = map (\<lambda>(kid, r). (kid, h ! r)) entries"




section \<open>Invariant of the session store\<close>

lemma set_update_subset: "set (AList.update k v al) \<subseteq> insert (k, v) (set al)"
  by (induction al) auto

lemma set_delete_subset: "set (AList.delete k al) \<subseteq> set al"
  by (auto simp: AList.delete_eq)

lemma sessions_ok_update:
  "sessions_ok ss \<Longrightarrow> k \<noteq> [] \<Longrightarrow> status s = Active \<Longrightarrow> kioskId s = k \<Longrightarrow>
   monitorId s \<noteq> [] \<Longrightarrow> monitorSocketId s \<noteq> [] \<Longrightarrow> sessions_ok (AList.update k s ss)"
  unfolding sessions_ok_def using set_update_subset[of k s ss]
  by (auto simp: distinct_update)

lemma sessions_ok_delete: "sessions_ok ss \<Longrightarrow> sessions_ok (AList.delete k ss)"
  unfolding sessions_ok_def using set_delete_subset[of k ss]
  by (auto simp: distinct_delete)

lemma sessions_ok_lookup:
  "sessions_ok ss \<Longrightarrow> map_of ss k = Some s \<Longrightarrow>
   k \<noteq> [] \<and> status s = Active \<and> kioskId s = k \<and> monitorId s \<noteq> [] \<and> monitorSocketId s \<noteq> []"
  unfolding sessions_ok_def by (auto dest: map_of_SomeD)

lemma createSession_ok:
  "sessions_ok ss \<Longrightarrow> createSession kid mid msid t ss = Inr (s, ss') \<Longrightarrow> sessions_ok ss'"
  by (auto simp: createSession_def Let_def sessions_ok_update split: if_splits)

lemma endSession_ok: "sessions_ok ss \<Longrightarrow> sessions_ok (snd (endSession kid t ss))"
  by (auto simp: endSession_def sessions_ok_delete split: option.splits)

lemma endEach_ok: "sessions_ok ss \<Longrightarrow> sessions_ok (snd (endEach kids t acc ss))"
proof (induction kids arbitrary: acc ss)
  case Nil
  then show ?case by simp
next
  case (Cons kid kids)
  from endSession_ok[OF Cons.prems, of kid t] Cons.IH show ?case
    by (cases "endSession kid t ss") (auto split: option.splits)
qed

lemma endSessionByMonitorSocket_ok:
  "sessions_ok ss \<Longrightarrow> sessions_ok (snd (endSessionByMonitorSocket msid t ss))"
  by (simp add: endSessionByMonitorSocket_def endEach_ok)

lemma endFirstOf_ok: "sessions_ok ss \<Longrightarrow> sessions_ok (snd (endFirstOf msid t es ss))"
  by (induction msid t es ss rule: endFirstOf.induct) (auto simp: endSession_ok)

lemma endSessionByMonitorSocket_first_ok:
  "sessions_ok ss \<Longrightarrow> sessions_ok (snd (endSessionByMonitorSocket_first msid t ss))"
  by (simp add: endSessionByMonitorSocket_first_def endFirstOf_ok)

lemma updateSessionActivity_ok:
  "sessions_ok ss \<Longrightarrow> sessions_ok (snd (updateSessionActivity kid t ss))"
  by (auto simp: updateSessionActivity_def split: option.splits
           dest: sessions_ok_lookup intro!: sessions_ok_update)

lemma timeoutEach_ok: "sessions_ok ss \<Longrightarrow> sessions_ok (snd (timeoutEach e xs out ss))"
proof (induction xs arbitrary: out ss)
  case Nil
  then show ?case by simp
next
  case (Cons x xs)
  from endSession_ok[OF Cons.prems, of "kioskId x" "clock e"] Cons.IH show ?case
    by (cases "endSession (kioskId x) (clock e) ss") (auto simp: Let_def)
qed

lemma heartbeatLoop_ok:
  "sessions_ok ss \<Longrightarrow> sessions_ok (snd (snd (snd (heartbeatLoop t hb acc out ks ss))))"
proof (induction hb arbitrary: acc out ks ss)
  case Nil
  then show ?case by simp
next
  case (Cons h hb)
  obtain kid l where h: "h = (kid, l)" by (cases h)
  from endSession_ok[OF Cons.prems, of kid t] Cons.IH Cons.prems show ?case
    by (cases "endSession kid t ss"; cases "markOffline kid t ks")
       (auto simp: h Let_def endSessionByKiosk_def)
qed

lemma forwardSignal_sessions:
  "sessions (snd (forwardSignal kind e c targetId blob b)) \<in>
     {sessions b, snd (updateSessionActivity targetId (clock e) (sessions b)),
      snd (updateSessionActivity (clientId c) (clock e) (sessions b))}"
  unfolding forwardSignal_def Let_def
  by (auto split: prod.splits option.splits if_splits)

lemma forwardSignal_ok:
  "sessions_ok (sessions b) \<Longrightarrow> sessions_ok (sessions (snd (forwardSignal kind e c targetId blob b)))"
  using forwardSignal_sessions[of kind e c targetId blob b]
  by (auto simp: updateSessionActivity_ok)

lemma crewEvent_sessions: "sessions (snd (crewEvent kind e c p b)) = sessions b"
  unfolding crewEvent_def Let_def
  by (auto split: prod.splits option.splits if_splits crew_kind.splits)

lemma on_register_kiosk_sessions: "sessions (snd (on_register_kiosk e c b)) = sessions b"
  unfolding on_register_kiosk_def by (auto split: sum.splits prod.splits)

lemma on_register_monitor_sessions: "sessions (snd (on_register_monitor e c b)) = sessions b"
  unfolding on_register_monitor_def by (auto simp: Let_def split: sum.splits prod.splits)

lemma on_heartbeat_ping_sessions: "sessions (snd (on_heartbeat_ping e c b)) = sessions b"
  unfolding on_heartbeat_ping_def by (auto simp: Let_def split: option.splits prod.splits)

lemma on_start_monitoring_ok:
  "sessions_ok (sessions b) \<Longrightarrow> sessions_ok (sessions (snd (on_start_monitoring e c kid b)))"
  unfolding on_start_monitoring_def
  using updateSessionActivity_ok[of "sessions b" kid "clock e"]
  by (auto simp: Let_def split: option.splits prod.splits sum.splits dest: createSession_ok)

lemma on_stop_monitoring_ok:
  "sessions_ok (sessions b) \<Longrightarrow> sessions_ok (sessions (snd (on_stop_monitoring e c kid b)))"
  unfolding on_stop_monitoring_def
  using endSession_ok[of "sessions b" kid "clock e"]
  by (auto simp: Let_def split: prod.splits)

lemma disconnectKiosk_ok:
  "sessions_ok (sessions b) \<Longrightarrow> sessions_ok (sessions (snd (disconnectKiosk e c b)))"
  unfolding disconnectKiosk_def endSessionByKiosk_def
  using endSession_ok[of "sessions b" "clientId c" "clock e"]
  by (auto simp: Let_def split: prod.splits)

lemma on_disconnect_ok:
  "sessions_ok (sessions b) \<Longrightarrow> sessions_ok (sessions (snd (on_disconnect e c b)))"
  unfolding on_disconnect_def
  using endSessionByMonitorSocket_ok[of "sessions b" "socketIdOf c" "clock e"]
        disconnectKiosk_ok[of b e c]
  by (auto simp: Let_def split: prod.splits role.splits)

lemma on_disconnect_first_ok:
  "sessions_ok (sessions b) \<Longrightarrow> sessions_ok (sessions (snd (on_disconnect_first e c b)))"
  unfolding on_disconnect_first_def
  using endSessionByMonitorSocket_first_ok[of "sessions b" "socketIdOf c" "clock e"]
        disconnectKiosk_ok[of b e c]
  by (auto simp: Let_def split: prod.splits role.splits)

lemma sessionTimeoutChecker_ok:
  "sessions_ok (sessions b) \<Longrightarrow> sessions_ok (sessions (snd (sessionTimeoutChecker e b)))"
  unfolding sessionTimeoutChecker_def
  using timeoutEach_ok[of "sessions b" e "getTimedOutSessions SESSION_TIMEOUT_MS (clock e) (sessions b)" "[]"]
  by (auto simp: Let_def split: prod.splits)

lemma checkHeartbeatTimeouts_ok:
  "sessions_ok (sessions b) \<Longrightarrow>
   sessions_ok (sessions (snd (snd (checkHeartbeatTimeouts e b))))"
  unfolding checkHeartbeatTimeouts_def
  using heartbeatLoop_ok[of "sessions b" "clock e" "heartbeatStore b" "[]" "[]" "kiosks b"]
  by (auto simp: Let_def split: prod.splits)

lemma handle_ok:
  "sessions_ok (sessions b) \<Longrightarrow> sessions_ok (sessions (snd (handle d e c m b)))"
  by (cases m; cases d)
     (simp_all add: on_register_kiosk_sessions on_register_monitor_sessions
        on_start_monitoring_ok on_stop_monitoring_ok on_offer_def on_answer_def
        on_ice_candidate_def forwardSignal_ok on_heartbeat_ping_sessions on_crew_sign_on_def
        on_crew_sign_off_def crewEvent_sessions on_disconnect_ok on_disconnect_first_ok)

lemma step_ok:
  assumes "sessions_ok (sessions b)"
  shows "sessions_ok (sessions (snd (step d e ev b)))"
proof (cases ev)
  case (FromClient c m)
  with assms show ?thesis by (simp add: handle_ok)
next
  case SessionTimerTick
  with assms show ?thesis by (simp add: sessionTimeoutChecker_ok)
next
  case HeartbeatTimerTick
  with assms show ?thesis using checkHeartbeatTimeouts_ok[of b e]
    by (auto split: prod.splits)
next
  case (CallCreateSession kid mid msid)
  with assms show ?thesis
    by (auto split: sum.splits dest: createSession_ok)
next
  case (CallEndSession kid)
  with assms show ?thesis by (simp add: endSession_ok)
next
  case (CallEndSessionByMonitorSocket msid)
  with assms show ?thesis
    by (cases d) (simp_all add: endSessionByMonitorSocket_ok endSessionByMonitorSocket_first_ok)
next
  case (CallUpdateSessionActivity kid)
  with assms show ?thesis by (simp add: updateSessionActivity_ok)
qed

lemma reachable_sessions_ok: "reachable d b \<Longrightarrow> sessions_ok (sessions b)"
proof (induction rule: reachable.induct)
  case reachable_initial
  show ?case by (simp add: initial_def sessions_ok_def)
next
  case (reachable_step b e ev)
  then show ?case by (simp add: step_ok)
qed

section \<open>Exclusive sessions\<close>

lemma distinct_keys_at_most_one:
  "distinct (map fst al) \<Longrightarrow> length (filter (\<lambda>(k, v). k = key) al) \<le> 1"
proof (induction al)
  case Nil
  then show ?case by simp
next
  case (Cons p al)
  obtain k v where p: "p = (k, v)" by (cases p)
  show ?case
  proof (cases "k = key")
    case True
    with Cons.prems p have "key \<notin> fst ` set al" by auto
    then have "filter (\<lambda>(k, v). k = key) al = []"
      by (force simp: filter_empty_conv)
    with True p show ?thesis by simp
  next
    case False
    with Cons p show ?thesis by simp
  qed
qed

lemma sessions_ok_count:
  assumes "sessions_ok ss"
  shows "length (filter (\<lambda>(k, s). (k = kid \<or> kioskId s = kid) \<and> status s = Active) ss) \<le> 1"
proof -
  have "filter (\<lambda>(k, s). (k = kid \<or> kioskId s = kid) \<and> status s = Active) ss =
        filter (\<lambda>(k, s). k = kid) ss"
    using assms unfolding sessions_ok_def by (intro filter_cong) auto
  with distinct_keys_at_most_one[of ss kid] assms show ?thesis
    by (simp add: sessions_ok_def)
qed

lemma createSession_present:
  "Map_has ss kid \<Longrightarrow>
   createSession kid mid msid t ss \<in> {Inl ArgumentsRequired, Inl (SessionAlreadyExists kid)}"
  by (auto simp: createSession_def)

lemma apply_call_keeps_key:
  "Map_has ss kid \<Longrightarrow> c \<noteq> EndCall kid \<Longrightarrow> Map_has (apply_call t c ss) kid"
proof (cases c)
  case (CreateCall k m s)
  assume "Map_has ss kid"
  then show ?thesis
    by (auto simp: CreateCall createSession_def Let_def update_conv' split: if_splits)
next
  case (EndCall k)
  assume "Map_has ss kid" "c \<noteq> EndCall kid"
  then show ?thesis
    by (auto simp: EndCall endSession_def delete_conv' split: option.splits)
next
  case (UpdateCall k)
  assume "Map_has ss kid"
  then show ?thesis
    by (auto simp: UpdateCall updateSessionActivity_def update_conv' split: option.splits)
qed

lemma apply_calls_keep_key:
  "Map_has ss kid \<Longrightarrow> EndCall kid \<notin> snd ` set cs \<Longrightarrow> Map_has (apply_calls cs ss) kid"
proof (induction cs arbitrary: ss)
  case Nil
  then show ?case by simp
next
  case (Cons tc cs)
  obtain t c where tc: "tc = (t, c)" by (cases tc)
  with Cons.prems have "Map_has (apply_call t c ss) kid"
    by (intro apply_call_keeps_key) auto
  with Cons tc show ?case by auto
qed

lemma createSession_inserts:
  "createSession kid mid msid t ss = Inr (s, ss') \<Longrightarrow>
   status s = Active \<and> Map_get ss' kid = Some s \<and> kioskId s = kid"
  by (auto simp: createSession_def Let_def update_conv' split: if_splits)

text \<open>
  Claim C1.  In every state any run of the broker reaches (any messages of any
  connections, timer ticks and direct calls of the session operations, under either
  draft), at most one active session is keyed by, or names, a given kiosk.
  \<open>createSession\<close> fails on a store that already has the key, and therefore a second
  \<open>createSession\<close> for a kiosk fails after any calls of the session module among which no
  \<open>endSession\<close> for that kiosk occurs.
\<close>

theorem at_most_one_session_per_kiosk:
  "(reachable d b \<longrightarrow>
      length (filter (\<lambda>(k, s). (k = kid \<or> kioskId s = kid) \<and> status s = Active) (sessions b)) \<le> 1) \<and>
   (Map_has ss kid \<longrightarrow>
      createSession kid mid msid t ss \<in> {Inl ArgumentsRequired, Inl (SessionAlreadyExists kid)}) \<and>
   (createSession kid mid msid t ss = Inr (s, ss1) \<and> EndCall kid \<notin> snd ` set cs \<longrightarrow>
      createSession kid mid' msid' t' (apply_calls cs ss1)
        \<in> {Inl ArgumentsRequired, Inl (SessionAlreadyExists kid)})"
proof (intro conjI impI)
  assume "reachable d b"
  then show "length (filter (\<lambda>(k, s). (k = kid \<or> kioskId s = kid) \<and> status s = Active) (sessions b)) \<le> 1"
    by (intro sessions_ok_count reachable_sessions_ok)
next
  assume "Map_has ss kid"
  then show "createSession kid mid msid t ss \<in> {Inl ArgumentsRequired, Inl (SessionAlreadyExists kid)}"
    by (rule createSession_present)
next
  assume a: "createSession kid mid msid t ss = Inr (s, ss1) \<and> EndCall kid \<notin> snd ` set cs"
  then have "Map_has ss1 kid" using createSession_inserts[of kid mid msid t ss s ss1] by simp
  with a have "Map_has (apply_calls cs ss1) kid" by (intro apply_calls_keep_key) auto
  then show "createSession kid mid' msid' t' (apply_calls cs ss1)
        \<in> {Inl ArgumentsRequired, Inl (SessionAlreadyExists kid)}"
    by (rule createSession_present)
qed

theorem at_most_one_session_per_kiosk_witness:
  "let e = \<lparr> clock = 1000, connected = [] \<rparr>;
       b = snd (step EndsAll e (CallCreateSession ''K1'' ''M1'' ''s1'') initial);
       s = \<lparr> kioskId = ''K1'', monitorId = ''M1'', monitorSocketId = ''s1'', startedAt = 1000,
             lastActivityAt = 1000, status = Active, endedAt = None \<rparr>;
       cs = [(1500, UpdateCall ''K1''), (1600, EndCall ''K2''), (1700, CreateCall ''K2'' ''M2'' ''s2'')]
   in reachable EndsAll b \<and> Map_has (sessions b) ''K1'' \<and>
      createSession ''K1'' ''M1'' ''s1'' 1000 [] = Inr (s, [(''K1'', s)]) \<and>
      EndCall ''K1'' \<notin> snd ` set cs \<and>
      length (filter (\<lambda>(k, s). (k = ''K1'' \<or> kioskId s = ''K1'') \<and> status s = Active) (sessions b)) \<le> 1 \<and>
      createSession ''K1'' ''M2'' ''s2'' 2000 (sessions b)
        \<in> {Inl ArgumentsRequired, Inl (SessionAlreadyExists ''K1'')} \<and>
      createSession ''K1'' ''M2'' ''s2'' 2000 (apply_calls cs [(''K1'', s)])
        \<in> {Inl ArgumentsRequired, Inl (SessionAlreadyExists ''K1'')}"
proof -
  define e where "e = \<lparr> clock = 1000, connected = [] \<rparr>"
  define b where "b = snd (step EndsAll e (CallCreateSession ''K1'' ''M1'' ''s1'') initial)"
  define s where "s = \<lparr> kioskId = ''K1'', monitorId = ''M1'', monitorSocketId = ''s1'',
    startedAt = 1000, lastActivityAt = 1000, status = Active, endedAt = None \<rparr>"
  define cs where "cs = [(1500::int, UpdateCall ''K1''), (1600, EndCall ''K2''),
    (1700, CreateCall ''K2'' ''M2'' ''s2'')]"
  have r: "reachable EndsAll b"
    unfolding b_def by (rule reachable_step [OF reachable_initial])
  have sb: "sessions b = [(''K1'', s)]"
    by (simp add: b_def e_def s_def initial_def createSession_def Let_def)
  have h: "Map_has (sessions b) ''K1''" by (simp add: sb)
  have c: "createSession ''K1'' ''M1'' ''s1'' 1000 [] = Inr (s, [(''K1'', s)])"
    by (simp add: createSession_def s_def Let_def)
  have n: "EndCall ''K1'' \<notin> snd ` set cs" by (simp add: cs_def)
  from at_most_one_session_per_kiosk [of EndsAll b "''K1''" "sessions b" "''M2''" "''s2''" 2000 s "[(''K1'', s)]"]
       r h
  have 1: "length (filter (\<lambda>(k, s). (k = ''K1'' \<or> kioskId s = ''K1'') \<and> status s = Active) (sessions b)) \<le> 1"
    and 2: "createSession ''K1'' ''M2'' ''s2'' 2000 (sessions b)
              \<in> {Inl ArgumentsRequired, Inl (SessionAlreadyExists ''K1'')}"
    by blast+
  from at_most_one_session_per_kiosk [of EndsAll b "''K1''" "[]" "''M1''" "''s1''" 1000 s "[(''K1'', s)]" cs
         "''M2''" "''s2''" 2000] c n
  have 3: "createSession ''K1'' ''M2'' ''s2'' 2000 (apply_calls cs [(''K1'', s)])
              \<in> {Inl ArgumentsRequired, Inl (SessionAlreadyExists ''K1'')}"
    by blast
  from r h c n 1 2 3 show ?thesis
    unfolding Let_def e_def [symmetric] b_def [symmetric] s_def [symmetric] cs_def [symmetric]
    by blast
qed

section \<open>Example states\<close>

lemma reachable_run: "reachable d b \<Longrightarrow> reachable d (snd (run d tr b))"
proof (induction tr arbitrary: b)
  case Nil
  then show ?case by simp
next
  case (Cons x tr)
  obtain e ev where x: "x = (e, ev)" by (cases x)
  from Cons.prems have "reachable d (snd (step d e ev b))" by (rule reachable_step)
  from Cons.IH[OF this] show ?case
    by (simp add: x case_prod_beta Let_def)
qed

lemma registered_state:
  "registered = \<lparr> kiosks = [(''K1'', entry ''K1'' ''sk1'' 1000), (''K2'', entry ''K2'' ''sk2'' 1100)],
                  monitors = [(''M1'', entry ''M1'' ''sm1'' 1200), (''M2'', entry ''M2'' ''sm2'' 1300)],
                  sessions = [], heartbeatStore = [], rateLimitStore = [] \<rparr>"
  by (simp add: registered_def initial_def at_def kiosk1_def kiosk2_def monitor1_def monitor2_def
        entry_def on_register_kiosk_def on_register_monitor_def registerKiosk_def
        registerMonitor_def Let_def getAllKiosks_def)

lemma registered_reachable: "reachable EndsAll registered"
  unfolding registered_def by (rule reachable_run [OF reachable_initial])

lemma monitoring_state:
  "monitoring = registered \<lparr> sessions := [(''K1'', sessionOf ''K1'' ''M1'' ''sm1'' 2000)] \<rparr>"
  by (simp add: monitoring_def registered_state at_def monitor1_def entry_def sessionOf_def
        on_start_monitoring_def isKioskOnline_def hasActiveSession_def createSession_def Let_def)

lemma monitoring_reachable: "reachable EndsAll monitoring"
  unfolding monitoring_def by (rule reachable_step [OF registered_reachable])

section \<open>Session lifecycle\<close>

lemma hasActiveSession_iff:
  "sessions_ok ss \<Longrightarrow> hasActiveSession kid ss \<longleftrightarrow> Map_has ss kid"
  by (auto simp: hasActiveSession_def split: option.splits dest: sessions_ok_lookup)

lemma endSession_hit:
  "kid \<noteq> [] \<Longrightarrow> Map_get ss kid = Some s \<Longrightarrow>
   endSession kid t ss = (Some (s\<lparr> endedAt := Some t, status := Ended \<rparr>), Map_delete kid ss)"
  by (simp add: endSession_def)

lemma endSession_miss: "\<not> Map_has ss kid \<Longrightarrow> endSession kid t ss = (None, ss)"
  by (simp add: endSession_def)

lemma isKioskOnline_nonempty: "isKioskOnline kid ks \<Longrightarrow> kid \<noteq> []"
  by (auto simp: isKioskOnline_def split: if_splits)

lemma start_monitoring_owner:
  assumes "role c = MONITOR" and "isKioskOnline kid (kiosks b)"
    and "Map_get (sessions b) kid = Some s" and "status s = Active"
    and "monitorSocketId s = socketIdOf c"
  shows "on_start_monitoring e c kid b =
           ([ToSocket (socketIdOf c) (MonitoringStarted kid kid None (clock e))],
            b\<lparr> sessions := Map_set kid (s\<lparr> lastActivityAt := clock e \<rparr>) (sessions b) \<rparr>)"
  using assms isKioskOnline_nonempty[OF assms(2)]
  by (simp add: on_start_monitoring_def hasActiveSession_def getSession_def
        updateSessionActivity_def)

lemma start_monitoring_fresh:
  assumes "role c = MONITOR" and "isKioskOnline kid (kiosks b)"
    and "\<not> Map_has (sessions b) kid" and "clientId c \<noteq> []" and "socketIdOf c \<noteq> []"
  shows "on_start_monitoring e c kid b =
           ([ToSocket (socketIdOf c) (MonitoringStarted kid kid (Some (clock e)) (clock e))],
            b\<lparr> sessions := Map_set kid
                  \<lparr> kioskId = kid, monitorId = clientId c, monitorSocketId = socketIdOf c,
                    startedAt = clock e, lastActivityAt = clock e, status = Active,
                    endedAt = None \<rparr> (sessions b) \<rparr>)"
  using assms isKioskOnline_nonempty[OF assms(2)]
  by (simp add: on_start_monitoring_def hasActiveSession_def createSession_def Let_def)

lemma count_key_one:
  "distinct (map fst al) \<Longrightarrow> map_of al key = Some v \<Longrightarrow>
   length (filter (\<lambda>(k, v). k = key) al) = 1"
proof -
  assume d: "distinct (map fst al)" and m: "map_of al key = Some v"
  from m have "(key, v) \<in> set al" by (rule map_of_SomeD)
  then have "filter (\<lambda>(k, v). k = key) al \<noteq> []"
    by (auto simp: filter_empty_conv)
  then have "length (filter (\<lambda>(k, v). k = key) al) \<ge> 1"
    by (cases "filter (\<lambda>(k, v). k = key) al") auto
  with distinct_keys_at_most_one[OF d, of key] show ?thesis by simp
qed

text \<open>
  Claim C10.  In every reachable state all stored sessions have status active, so
  \<open>hasActiveSession\<close> holds exactly for the keys of the store and \<open>createSession\<close> reports an
  existing session exactly when its arguments are present and an active session exists.
  \<open>createSession\<close> stores the session it returns, with status active; \<open>endSession\<close> marks
  only the returned copy as ended and leaves no entry under the key.
\<close>

theorem stored_sessions_are_active:
  "(reachable d b \<longrightarrow>
      (\<forall>(k, s) \<in> set (sessions b). status s = Active) \<and>
      (hasActiveSession kid (sessions b) \<longleftrightarrow> Map_has (sessions b) kid) \<and>
      (createSession kid mid msid t (sessions b) = Inl (SessionAlreadyExists kid) \<longleftrightarrow>
         kid \<noteq> [] \<and> mid \<noteq> [] \<and> msid \<noteq> [] \<and> hasActiveSession kid (sessions b))) \<and>
   (createSession kid mid msid t ss = Inr (s, ss') \<longrightarrow>
      status s = Active \<and> Map_get ss' kid = Some s) \<and>
   (endSession kid t ss = (Some s, ss') \<longrightarrow>
      status s = Ended \<and> \<not> Map_has ss' kid \<and> set ss' \<subseteq> set ss)"
proof (intro conjI impI)
  assume r: "reachable d b"
  then have ok: "sessions_ok (sessions b)" by (rule reachable_sessions_ok)
  then show "\<forall>(k, s) \<in> set (sessions b). status s = Active"
    by (auto simp: sessions_ok_def)
  from ok show h: "hasActiveSession kid (sessions b) \<longleftrightarrow> Map_has (sessions b) kid"
    by (rule hasActiveSession_iff)
  show "createSession kid mid msid t (sessions b) = Inl (SessionAlreadyExists kid) \<longleftrightarrow>
         kid \<noteq> [] \<and> mid \<noteq> [] \<and> msid \<noteq> [] \<and> hasActiveSession kid (sessions b)"
    unfolding h by (auto simp: createSession_def Let_def)
next
  assume "createSession kid mid msid t ss = Inr (s, ss')"
  then show "status s = Active" "Map_get ss' kid = Some s"
    using createSession_inserts by blast+
next
  assume e: "endSession kid t ss = (Some s, ss')"
  then show "status s = Ended" "\<not> Map_has ss' kid" "set ss' \<subseteq> set ss"
    using set_delete_subset[of kid ss]
    by (auto simp: endSession_def delete_conv' split: if_splits option.splits)
qed

theorem stored_sessions_are_active_witness:
  "reachable EndsAll monitoring \<and>
   createSession ''K1'' ''M1'' ''sm1'' 2000 [] =
     Inr (sessionOf ''K1'' ''M1'' ''sm1'' 2000, [(''K1'', sessionOf ''K1'' ''M1'' ''sm1'' 2000)]) \<and>
   endSession ''K1'' 3000 (sessions monitoring) =
     (Some (sessionOf ''K1'' ''M1'' ''sm1'' 2000 \<lparr> endedAt := Some 3000, status := Ended \<rparr>), []) \<and>
   list_all (\<lambda>(k, s). status s = Active) (sessions monitoring) \<and>
   hasActiveSession ''K1'' (sessions monitoring) \<and> Map_has (sessions monitoring) ''K1'' \<and>
   createSession ''K1'' ''M2'' ''sm2'' 2500 (sessions monitoring) = Inl (SessionAlreadyExists ''K1'') \<and>
   status (sessionOf ''K1'' ''M1'' ''sm1'' 2000) = Active \<and>
   status (sessionOf ''K1'' ''M1'' ''sm1'' 2000 \<lparr> endedAt := Some 3000, status := Ended \<rparr>) = Ended \<and>
   \<not> Map_has ([] :: sessions) ''K1''"
proof -
  let ?s = "sessionOf ''K1'' ''M1'' ''sm1'' 2000"
  have c: "createSession ''K1'' ''M1'' ''sm1'' 2000 [] = Inr (?s, [(''K1'', ?s)])"
    by (simp add: createSession_def sessionOf_def Let_def)
  have e: "endSession ''K1'' 3000 (sessions monitoring) =
             (Some (?s \<lparr> endedAt := Some 3000, status := Ended \<rparr>), [])"
    by (simp add: monitoring_state endSession_def)
  have h: "hasActiveSession ''K1'' (sessions monitoring)"
    by (simp add: monitoring_state hasActiveSession_def sessionOf_def)
  from stored_sessions_are_active [of EndsAll monitoring "''K1''" "''M2''" "''sm2''" 2500
         "sessions monitoring" ?s "[(''K1'', ?s)]"]
       monitoring_reachable h
  have 1: "\<forall>(k, s) \<in> set (sessions monitoring). status s = Active"
    and 2: "Map_has (sessions monitoring) ''K1''"
    and 3: "createSession ''K1'' ''M2'' ''sm2'' 2500 (sessions monitoring) = Inl (SessionAlreadyExists ''K1'')"
    by simp_all
  from stored_sessions_are_active [of EndsAll monitoring "''K1''" "''M1''" "''sm1''" 2000 "[]" ?s "[(''K1'', ?s)]"] c
  have 4: "status ?s = Active" by blast
  from stored_sessions_are_active [of EndsAll monitoring "''K1''" "''M1''" "''sm1''" 3000
         "sessions monitoring" "?s \<lparr> endedAt := Some 3000, status := Ended \<rparr>" "[]"] e
  have 5: "status (?s \<lparr> endedAt := Some 3000, status := Ended \<rparr>) = Ended"
    and 6: "\<not> Map_has ([] :: sessions) ''K1''" by blast+
  from 1 have 1: "list_all (\<lambda>(k, s). status s = Active) (sessions monitoring)"
    by (simp add: list_all_iff)
  from monitoring_reachable c e h 1 2 3 4 5 6 show ?thesis by blast
qed

text \<open>
  Claim C8.  In a reachable state where the connection of a monitor owns the session of a
  kiosk, \<open>stop-monitoring\<close> replies \<open>monitoring-stopped\<close> and removes the session, and the
  same request repeated at once is answered with the error \<open>SESSION_NOT_FOUND\<close> and changes
  nothing.  \<open>endSession\<close> returns the removed session on the first call and nothing on the
  second; on any store without the key it returns nothing and the store as it was.
\<close>

theorem stop_monitoring_twice:
  assumes "reachable d b" and "role c = MONITOR"
    and "Map_get (sessions b) kid = Some s" and "monitorSocketId s = socketIdOf c"
  shows "on_stop_monitoring e1 c kid b =
           ([ToSocket (socketIdOf c) (MonitoringStopped kid (clock e1))],
            b\<lparr> sessions := Map_delete kid (sessions b) \<rparr>) \<and>
         on_stop_monitoring e2 c kid (b\<lparr> sessions := Map_delete kid (sessions b) \<rparr>) =
           ([emitError c SESSION_NOT_FOUND NoDetails], b\<lparr> sessions := Map_delete kid (sessions b) \<rparr>) \<and>
         endSession kid (clock e1) (sessions b) =
           (Some (s\<lparr> endedAt := Some (clock e1), status := Ended \<rparr>), Map_delete kid (sessions b)) \<and>
         endSession kid (clock e2) (Map_delete kid (sessions b)) = (None, Map_delete kid (sessions b)) \<and>
         (\<not> Map_has ss kid' \<longrightarrow> endSession kid' t ss = (None, ss))"
proof -
  from assms(1) have ok: "sessions_ok (sessions b)" by (rule reachable_sessions_ok)
  from sessions_ok_lookup[OF ok assms(3)] have k: "kid \<noteq> []" and a: "status s = Active"
    and m: "monitorSocketId s \<noteq> []" by auto
  have gone: "\<not> Map_has (Map_delete kid (sessions b)) kid" by (simp add: delete_conv')
  have 1: "endSession kid (clock e1) (sessions b) =
           (Some (s\<lparr> endedAt := Some (clock e1), status := Ended \<rparr>), Map_delete kid (sessions b))"
    using k assms(3) by (rule endSession_hit)
  have 2: "endSession kid (clock e2) (Map_delete kid (sessions b)) = (None, Map_delete kid (sessions b))"
    using gone by (rule endSession_miss)
  have 3: "on_stop_monitoring e1 c kid b =
           ([ToSocket (socketIdOf c) (MonitoringStopped kid (clock e1))],
            b\<lparr> sessions := Map_delete kid (sessions b) \<rparr>)"
    using assms k a m 1
    by (simp add: on_stop_monitoring_def hasActiveSession_def validateSessionOwnership_def)
  have 4: "on_stop_monitoring e2 c kid (b\<lparr> sessions := Map_delete kid (sessions b) \<rparr>) =
           ([emitError c SESSION_NOT_FOUND NoDetails], b\<lparr> sessions := Map_delete kid (sessions b) \<rparr>)"
    using assms(2) k gone
    by (simp add: on_stop_monitoring_def hasActiveSession_def)
  have 5: "\<not> Map_has ss kid' \<longrightarrow> endSession kid' t ss = (None, ss)"
    by (simp add: endSession_miss)
  from 1 2 3 4 5 show ?thesis by blast
qed

theorem stop_monitoring_twice_witness:
  "reachable EndsAll monitoring \<and> role monitor1 = MONITOR \<and>
   Map_get (sessions monitoring) ''K1'' = Some (sessionOf ''K1'' ''M1'' ''sm1'' 2000) \<and>
   monitorSocketId (sessionOf ''K1'' ''M1'' ''sm1'' 2000) = socketIdOf monitor1 \<and>
   \<not> Map_has (sessions monitoring) ''K2'' \<and>
   on_stop_monitoring (at 3000) monitor1 ''K1'' monitoring =
     ([ToSocket ''sm1'' (MonitoringStopped ''K1'' 3000)], registered) \<and>
   on_stop_monitoring (at 3001) monitor1 ''K1'' registered =
     ([ToSocket ''sm1'' (Error SESSION_NOT_FOUND NoDetails)], registered) \<and>
   endSession ''K2'' 3000 (sessions monitoring) = (None, sessions monitoring)"
proof -
  let ?s = "sessionOf ''K1'' ''M1'' ''sm1'' 2000"
  have g: "Map_get (sessions monitoring) ''K1'' = Some ?s" by (simp add: monitoring_state)
  have o: "monitorSocketId ?s = socketIdOf monitor1" by (simp add: sessionOf_def monitor1_def)
  have m: "role monitor1 = MONITOR" by (simp add: monitor1_def)
  have n: "\<not> Map_has (sessions monitoring) ''K2''" by (simp add: monitoring_state)
  have d: "monitoring \<lparr> sessions := Map_delete ''K1'' (sessions monitoring) \<rparr> = registered"
    by (simp add: monitoring_state registered_state)
  from stop_monitoring_twice [OF monitoring_reachable m g o, of "at 3000" "at 3001"
         "sessions monitoring" "''K2''" 3000] n
  have "on_stop_monitoring (at 3000) monitor1 ''K1'' monitoring =
          ([ToSocket ''sm1'' (MonitoringStopped ''K1'' 3000)], registered)"
    and "on_stop_monitoring (at 3001) monitor1 ''K1'' registered =
          ([ToSocket ''sm1'' (Error SESSION_NOT_FOUND NoDetails)], registered)"
    and "endSession ''K2'' 3000 (sessions monitoring) = (None, sessions monitoring)"
    by (simp_all add: d at_def monitor1_def emitError_def)
  with monitoring_reachable m g o n show ?thesis by blast
qed

text \<open>
  Claim C7.  In a reachable state where the kiosk is online and its session is absent or
  owned by the requesting monitor connection, two \<open>start-monitoring\<close> requests of that
  connection are both answered with \<open>monitoring-started\<close>; the second only moves
  \<open>lastActivityAt\<close> of the session the first left (same \<open>startedAt\<close>, same owner), and the
  store holds exactly one entry for the kiosk.
\<close>

theorem start_monitoring_idempotent:
  assumes r: "reachable d b" and m: "role c = MONITOR" and on: "isKioskOnline kid (kiosks b)"
    and ids: "clientId c \<noteq> []" "socketIdOf c \<noteq> []"
    and own: "case Map_get (sessions b) kid of None \<Rightarrow> True
              | Some s \<Rightarrow> monitorSocketId s = socketIdOf c"
  shows "\<exists>startedAt1 b1 s1 b2.
           on_start_monitoring e1 c kid b =
             ([ToSocket (socketIdOf c) (MonitoringStarted kid kid startedAt1 (clock e1))], b1) \<and>
           Map_get (sessions b1) kid = Some s1 \<and>
           on_start_monitoring e2 c kid b1 =
             ([ToSocket (socketIdOf c) (MonitoringStarted kid kid None (clock e2))], b2) \<and>
           Map_get (sessions b2) kid = Some (s1\<lparr> lastActivityAt := clock e2 \<rparr>) \<and>
           monitorSocketId s1 = socketIdOf c \<and> status s1 = Active \<and>
           length (filter (\<lambda>(k, s). k = kid) (sessions b2)) = 1"
proof -
  from r have ok: "sessions_ok (sessions b)" by (rule reachable_sessions_ok)
  have first: "\<exists>startedAt1 b1 s1.
      on_start_monitoring e1 c kid b =
        ([ToSocket (socketIdOf c) (MonitoringStarted kid kid startedAt1 (clock e1))], b1) \<and>
      Map_get (sessions b1) kid = Some s1 \<and> monitorSocketId s1 = socketIdOf c \<and>
      status s1 = Active \<and> kiosks b1 = kiosks b"
  proof (cases "Map_get (sessions b) kid")
    case None
    with start_monitoring_fresh[OF m on _ ids, of e1] show ?thesis
      by (simp add: update_conv')
  next
    case (Some s)
    with own have o: "monitorSocketId s = socketIdOf c" by simp
    from sessions_ok_lookup[OF ok Some] have "status s = Active" by simp
    from start_monitoring_owner[OF m on Some this o, of e1] o \<open>status s = Active\<close>
    show ?thesis by (simp add: update_conv')
  qed
  then obtain startedAt1 b1 s1 where
    1: "on_start_monitoring e1 c kid b =
        ([ToSocket (socketIdOf c) (MonitoringStarted kid kid startedAt1 (clock e1))], b1)"
    and g1: "Map_get (sessions b1) kid = Some s1" and o1: "monitorSocketId s1 = socketIdOf c"
    and a1: "status s1 = Active" and k1: "kiosks b1 = kiosks b" by blast
  from on_start_monitoring_ok[OF ok, of e1 c kid] 1 have ok1: "sessions_ok (sessions b1)" by simp
  from on k1 have on1: "isKioskOnline kid (kiosks b1)" by simp
  from start_monitoring_owner[OF m on1 g1 a1 o1, of e2]
  have 2: "on_start_monitoring e2 c kid b1 =
      ([ToSocket (socketIdOf c) (MonitoringStarted kid kid None (clock e2))],
       b1\<lparr> sessions := Map_set kid (s1\<lparr> lastActivityAt := clock e2 \<rparr>) (sessions b1) \<rparr>)" .
  let ?b2 = "b1\<lparr> sessions := Map_set kid (s1\<lparr> lastActivityAt := clock e2 \<rparr>) (sessions b1) \<rparr>"
  have g2: "Map_get (sessions ?b2) kid = Some (s1\<lparr> lastActivityAt := clock e2 \<rparr>)"
    by (simp add: update_conv')
  from on_start_monitoring_ok[OF ok1, of e2 c kid] 2 have "sessions_ok (sessions ?b2)" by simp
  then have "distinct (map fst (sessions ?b2))" by (simp add: sessions_ok_def)
  from count_key_one[OF this g2] have "length (filter (\<lambda>(k, s). k = kid) (sessions ?b2)) = 1" .
  with 1 g1 2 g2 o1 a1 show ?thesis by blast
qed

theorem start_monitoring_idempotent_witness:
  "reachable EndsAll registered \<and> role monitor1 = MONITOR \<and>
   isKioskOnline ''K1'' (kiosks registered) \<and> clientId monitor1 \<noteq> [] \<and> socketIdOf monitor1 \<noteq> [] \<and>
   Map_get (sessions registered) ''K1'' = None \<and>
   (\<exists>startedAt1 b1 s1 b2.
      on_start_monitoring (at 2000) monitor1 ''K1'' registered =
        ([ToSocket ''sm1'' (MonitoringStarted ''K1'' ''K1'' startedAt1 2000)], b1) \<and>
      Map_get (sessions b1) ''K1'' = Some s1 \<and>
      on_start_monitoring (at 2500) monitor1 ''K1'' b1 =
        ([ToSocket ''sm1'' (MonitoringStarted ''K1'' ''K1'' None 2500)], b2) \<and>
      Map_get (sessions b2) ''K1'' = Some (s1\<lparr> lastActivityAt := 2500 \<rparr>) \<and>
      monitorSocketId s1 = ''sm1'' \<and> status s1 = Active \<and>
      length (filter (\<lambda>(k, s). k = ''K1'') (sessions b2)) = 1)"
proof -
  have m: "role monitor1 = MONITOR" and i: "clientId monitor1 \<noteq> []" "socketIdOf monitor1 \<noteq> []"
    by (simp_all add: monitor1_def)
  have on: "isKioskOnline ''K1'' (kiosks registered)"
    by (simp add: registered_state isKioskOnline_def entry_def)
  have g: "Map_get (sessions registered) ''K1'' = None" by (simp add: registered_state)
  then have own: "case Map_get (sessions registered) ''K1'' of None \<Rightarrow> True
                  | Some s \<Rightarrow> monitorSocketId s = socketIdOf monitor1" by simp
  from start_monitoring_idempotent [OF registered_reachable m on i own, of "at 2000" "at 2500"]
  have "\<exists>startedAt1 b1 s1 b2.
      on_start_monitoring (at 2000) monitor1 ''K1'' registered =
        ([ToSocket ''sm1'' (MonitoringStarted ''K1'' ''K1'' startedAt1 2000)], b1) \<and>
      Map_get (sessions b1) ''K1'' = Some s1 \<and>
      on_start_monitoring (at 2500) monitor1 ''K1'' b1 =
        ([ToSocket ''sm1'' (MonitoringStarted ''K1'' ''K1'' None 2500)], b2) \<and>
      Map_get (sessions b2) ''K1'' = Some (s1\<lparr> lastActivityAt := 2500 \<rparr>) \<and>
      monitorSocketId s1 = ''sm1'' \<and> status s1 = Active \<and>
      length (filter (\<lambda>(k, s). k = ''K1'') (sessions b2)) = 1"
    by (simp add: at_def monitor1_def)
  with registered_reachable m on i g show ?thesis by blast
qed

section \<open>Evaluating concrete runs\<close>

lemmas handler_defs =
  on_register_kiosk_def on_register_monitor_def on_start_monitoring_def on_stop_monitoring_def
  on_offer_def on_answer_def on_ice_candidate_def forwardSignal_def on_heartbeat_ping_def
  on_crew_sign_on_def on_crew_sign_off_def crewEvent_def on_disconnect_def on_disconnect_first_def
  disconnectKiosk_def emitError_def

lemmas state_defs =
  registerKiosk_def registerMonitor_def removeKiosk_def removeMonitor_def getKiosk_def
  getMonitor_def getAllKiosks_def updateLastSeen_def markOffline_def isKioskOnline_def
  createSession_def endSession_def endSessionByKiosk_def endSessionByMonitorSocket_def
  endSessionByMonitorSocket_first_def getSession_def updateSessionActivity_def
  hasActiveSession_def validateSessionOwnership_def processHeartbeatPing_def removeHeartbeat_def
  checkRateLimit_def cleanupOldEntries_def rateKey_def getRateLimit_def DEFAULT_LIMITS_def
  INHERITED_NAMES_def
  resetAllRateLimits_def signalEventType_def crewEventType_def validateCrewEventPayload_def
  isNonEmptyString_def broadcastCrewSignOn_def broadcastCrewSignOff_def crewEventData_def

lemmas example_defs = at_def kiosk1_def kiosk2_def monitor1_def monitor2_def entry_def
  sessionOf_def initial_def

section \<open>Crew events\<close>

lemma crewEvent_attribution:
  "em \<in> set (fst (crewEvent kind e c p b)) \<Longrightarrow> crewAttribution em = Some v \<Longrightarrow>
   v = JStr (clientId c)"
  unfolding crewEvent_def Let_def
  by (auto simp: emitError_def broadcastCrewSignOn_def broadcastCrewSignOff_def crewEventData_def
           split: prod.splits option.splits if_splits crew_kind.splits)

lemma forwardSignal_no_crew:
  "em \<in> set (fst (forwardSignal kind e c targetId blob b)) \<Longrightarrow> crewAttribution em = None"
  unfolding forwardSignal_def Let_def
  by (auto simp: emitError_def split: prod.splits option.splits if_splits)

lemma on_start_monitoring_no_crew:
  "em \<in> set (fst (on_start_monitoring e c kid b)) \<Longrightarrow> crewAttribution em = None"
  unfolding on_start_monitoring_def Let_def
  by (auto simp: emitError_def split: prod.splits option.splits if_splits sum.splits)

lemma on_stop_monitoring_no_crew:
  "em \<in> set (fst (on_stop_monitoring e c kid b)) \<Longrightarrow> crewAttribution em = None"
  unfolding on_stop_monitoring_def Let_def
  by (auto simp: emitError_def split: prod.splits option.splits if_splits)

lemma on_register_kiosk_no_crew:
  "em \<in> set (fst (on_register_kiosk e c b)) \<Longrightarrow> crewAttribution em = None"
  unfolding on_register_kiosk_def
  by (auto simp: emitError_def split: prod.splits sum.splits if_splits)

lemma on_register_monitor_no_crew:
  "em \<in> set (fst (on_register_monitor e c b)) \<Longrightarrow> crewAttribution em = None"
  unfolding on_register_monitor_def Let_def
  by (auto simp: emitError_def split: prod.splits sum.splits if_splits)

lemma on_heartbeat_ping_no_crew:
  "em \<in> set (fst (on_heartbeat_ping e c b)) \<Longrightarrow> crewAttribution em = None"
  unfolding on_heartbeat_ping_def Let_def
  by (auto simp: emitError_def split: prod.splits option.splits if_splits)

lemma disconnectKiosk_no_crew:
  "em \<in> set (fst (disconnectKiosk e c b)) \<Longrightarrow> crewAttribution em = None"
  unfolding disconnectKiosk_def Let_def
  by (auto split: prod.splits option.splits)

lemma on_disconnect_no_crew:
  "em \<in> set (fst (on_disconnect e c b)) \<Longrightarrow> crewAttribution em = None"
  unfolding on_disconnect_def Let_def case_prod_beta
  by (cases "role c") (auto dest: disconnectKiosk_no_crew)

lemma on_disconnect_first_no_crew:
  "em \<in> set (fst (on_disconnect_first e c b)) \<Longrightarrow> crewAttribution em = None"
  unfolding on_disconnect_first_def Let_def case_prod_beta
  by (cases "role c") (auto dest: disconnectKiosk_no_crew split: option.splits)

lemma timeoutEach_no_crew:
  "\<forall>em \<in> set out. crewAttribution em = None \<Longrightarrow>
   \<forall>em \<in> set (fst (timeoutEach e xs out ss)). crewAttribution em = None"
proof (induction xs arbitrary: out ss)
  case Nil
  then show ?case by simp
next
  case (Cons x xs)
  define out' where "out' = out @
     [ToRoom ''monitors'' (SessionEnded (kioskId x) (monitorId x) ''session-timeout'' (clock e))] @
     (if monitorSocketId x \<in> set (connected e)
      then [ToSocket (monitorSocketId x) (SessionTimeout (kioskId x) (clock e))] else [])"
  have eq: "timeoutEach e (x # xs) out ss =
            timeoutEach e xs out' (snd (endSession (kioskId x) (clock e) ss))"
    by (simp add: out'_def Let_def case_prod_beta)
  from Cons.prems have "\<forall>em \<in> set out'. crewAttribution em = None"
    by (auto simp: out'_def)
  from Cons.IH[OF this] show ?case unfolding eq .
qed

lemma heartbeatLoop_no_crew:
  "\<forall>em \<in> set out. crewAttribution em = None \<Longrightarrow>
   \<forall>em \<in> set (fst (snd (heartbeatLoop t hb acc out ks ss))). crewAttribution em = None"
proof (induction hb arbitrary: acc out ks ss)
  case Nil
  then show ?case by simp
next
  case (Cons h hb)
  obtain kid l where h: "h = (kid, l)" by (cases h)
  show ?case
  proof (cases "t - l > HEARTBEAT_TIMEOUT_MS \<and> isKioskOnline kid ks")
    case False
    then have "heartbeatLoop t (h # hb) acc out ks ss = heartbeatLoop t hb acc out ks ss"
      by (auto simp: h Let_def)
    with Cons.IH[OF Cons.prems] show ?thesis by simp
  next
    case True
    define out' where "out' = out @ [ToRoom ''monitors'' (KioskOffline kid t ''heartbeat-timeout'')] @
      (case fst (endSessionByKiosk kid t ss) of None \<Rightarrow> []
       | Some s \<Rightarrow> [ToRoom ''monitors'' (SessionEnded kid (monitorId s) ''kiosk-timeout'' t)])"
    from True have eq: "heartbeatLoop t (h # hb) acc out ks ss =
        heartbeatLoop t hb (acc @ [kid]) out' (snd (markOffline kid t ks))
          (snd (endSessionByKiosk kid t ss))"
      by (simp add: h Let_def case_prod_beta out'_def)
    from Cons.prems have "\<forall>em \<in> set out'. crewAttribution em = None"
      by (auto simp: out'_def split: option.splits)
    from Cons.IH[OF this] show ?thesis unfolding eq .
  qed
qed

lemma handle_attribution:
  "em \<in> set (fst (handle d e c m b)) \<Longrightarrow> crewAttribution em = Some v \<Longrightarrow> v = JStr (clientId c)"
proof (cases m)
  case (CrewSignOnMsg p)
  then show "em \<in> set (fst (handle d e c m b)) \<Longrightarrow> crewAttribution em = Some v \<Longrightarrow> ?thesis"
    by (auto simp: on_crew_sign_on_def dest: crewEvent_attribution)
next
  case (CrewSignOffMsg p)
  then show "em \<in> set (fst (handle d e c m b)) \<Longrightarrow> crewAttribution em = Some v \<Longrightarrow> ?thesis"
    by (auto simp: on_crew_sign_off_def dest: crewEvent_attribution)
next
  case Disconnect
  then show "em \<in> set (fst (handle d e c m b)) \<Longrightarrow> crewAttribution em = Some v \<Longrightarrow> ?thesis"
    by (cases d) (auto dest: on_disconnect_no_crew on_disconnect_first_no_crew)
qed (auto simp: on_offer_def on_answer_def on_ice_candidate_def
       dest: on_register_kiosk_no_crew on_register_monitor_no_crew on_start_monitoring_no_crew
         on_stop_monitoring_no_crew forwardSignal_no_crew on_heartbeat_ping_no_crew)

lemma step_attribution:
  assumes "em \<in> set (fst (step d e ev b))" and "crewAttribution em = Some v"
  shows "\<exists>c m. ev = FromClient c m \<and> v = JStr (clientId c)"
proof (cases ev)
  case (FromClient c m)
  with assms handle_attribution[of em d e c m b v] show ?thesis by simp
next
  case SessionTimerTick
  with assms timeoutEach_no_crew[of "[]" e "getTimedOutSessions SESSION_TIMEOUT_MS (clock e) (sessions b)" "sessions b"]
  show ?thesis by (auto simp: sessionTimeoutChecker_def Let_def case_prod_beta)
next
  case HeartbeatTimerTick
  with assms heartbeatLoop_no_crew[of "[]" "clock e" "heartbeatStore b" "[]" "kiosks b" "sessions b"]
  show ?thesis by (auto simp: checkHeartbeatTimeouts_def Let_def case_prod_beta)
next
  case (CallCreateSession k m s)
  with assms show ?thesis by (auto split: sum.splits)
qed (use assms in auto)

lemma crewEvent_independent:
  "isNonEmptyString x \<Longrightarrow> isNonEmptyString y \<Longrightarrow>
   crewEvent kind e c (Some (p\<lparr> payloadKioskId := x \<rparr>)) b =
   crewEvent kind e c (Some (p\<lparr> payloadKioskId := y \<rparr>)) b"
  unfolding crewEvent_def Let_def
  by (cases kind) (simp_all add: validateCrewEventPayload_def case_prod_beta)

text \<open>
  Claim C3.  Whatever event the broker handles, a crew event it emits carries the client
  id of the connection that sent the message as its \<open>kioskId\<close>; the value the client put
  into the payload never reaches the broadcast.  Two requests that differ only in that
  value (both non-empty strings, as the validation demands) have the same emissions and
  the same effect, and whenever two requests differing only in that value both broadcast,
  the broadcasts name the same kiosk.
\<close>

theorem crew_broadcast_attribution:
  "(em \<in> set (fst (step d e ev b)) \<and> crewAttribution em = Some v \<longrightarrow>
      (\<exists>c m. ev = FromClient c m \<and> v = JStr (clientId c))) \<and>
   (isNonEmptyString x \<and> isNonEmptyString y \<longrightarrow>
      crewEvent kind e c (Some (p\<lparr> payloadKioskId := x \<rparr>)) b =
      crewEvent kind e c (Some (p\<lparr> payloadKioskId := y \<rparr>)) b) \<and>
   (em1 \<in> set (fst (crewEvent kind e c (Some (p\<lparr> payloadKioskId := x \<rparr>)) b)) \<and>
    em2 \<in> set (fst (crewEvent kind e c (Some (p\<lparr> payloadKioskId := y \<rparr>)) b)) \<and>
    crewAttribution em1 = Some v1 \<and> crewAttribution em2 = Some v2 \<longrightarrow> v1 = v2)"
proof (intro conjI impI)
  assume "em \<in> set (fst (step d e ev b)) \<and> crewAttribution em = Some v"
  then show "\<exists>c m. ev = FromClient c m \<and> v = JStr (clientId c)"
    using step_attribution by blast
next
  assume "isNonEmptyString x \<and> isNonEmptyString y"
  then show "crewEvent kind e c (Some (p\<lparr> payloadKioskId := x \<rparr>)) b =
             crewEvent kind e c (Some (p\<lparr> payloadKioskId := y \<rparr>)) b"
    using crewEvent_independent by blast
next
  assume a: "em1 \<in> set (fst (crewEvent kind e c (Some (p\<lparr> payloadKioskId := x \<rparr>)) b)) \<and>
    em2 \<in> set (fst (crewEvent kind e c (Some (p\<lparr> payloadKioskId := y \<rparr>)) b)) \<and>
    crewAttribution em1 = Some v1 \<and> crewAttribution em2 = Some v2"
  then have "v1 = JStr (clientId c)" "v2 = JStr (clientId c)"
    using crewEvent_attribution by blast+
  then show "v1 = v2" by simp
qed

theorem crew_broadcast_attribution_witness:
  "let p = \<lparr> employeeId = JStr ''E1'', name = JStr ''N'', timestamp = JUndefined,
             payloadKioskId = JUndefined \<rparr>;
       em = ToRoom ''monitors''
              (CrewEvent CrewSignOn (JStr ''E1'') (JStr ''N'') (ServerStamp 5000) (JStr ''K1''))
   in em \<in> set (fst (step EndsAll (at 5000)
                       (FromClient kiosk1 (CrewSignOnMsg (Some (p\<lparr> payloadKioskId := JStr ''K2'' \<rparr>))))
                       registered)) \<and>
      em \<in> set (fst (crewEvent CrewSignOn (at 5000) kiosk1
                       (Some (p\<lparr> payloadKioskId := JStr ''K2'' \<rparr>)) registered)) \<and>
      em \<in> set (fst (crewEvent CrewSignOn (at 5000) kiosk1
                       (Some (p\<lparr> payloadKioskId := JStr ''K1'' \<rparr>)) registered)) \<and>
      crewAttribution em = Some (JStr ''K1'') \<and>
      isNonEmptyString (JStr ''K2'') \<and> isNonEmptyString (JStr ''K1'') \<and>
      (\<exists>c m. FromClient kiosk1 (CrewSignOnMsg (Some (p\<lparr> payloadKioskId := JStr ''K2'' \<rparr>))) =
                FromClient c m \<and> JStr ''K1'' = JStr (clientId c)) \<and>
      crewEvent CrewSignOn (at 5000) kiosk1 (Some (p\<lparr> payloadKioskId := JStr ''K2'' \<rparr>)) registered =
      crewEvent CrewSignOn (at 5000) kiosk1 (Some (p\<lparr> payloadKioskId := JStr ''K1'' \<rparr>)) registered"
proof -
  define p where "p = \<lparr> employeeId = JStr ''E1'', name = JStr ''N'', timestamp = JUndefined,
             payloadKioskId = JUndefined \<rparr>"
  define em where "em = ToRoom ''monitors''
              (CrewEvent CrewSignOn (JStr ''E1'') (JStr ''N'') (ServerStamp 5000) (JStr ''K1''))"
  have 1: "em \<in> set (fst (crewEvent CrewSignOn (at 5000) kiosk1
                       (Some (p\<lparr> payloadKioskId := JStr ''K2'' \<rparr>)) registered))"
    by (simp add: registered_state handler_defs state_defs example_defs Let_def p_def em_def)
  have 2: "em \<in> set (fst (crewEvent CrewSignOn (at 5000) kiosk1
                       (Some (p\<lparr> payloadKioskId := JStr ''K1'' \<rparr>)) registered))"
    by (simp add: registered_state handler_defs state_defs example_defs Let_def p_def em_def)
  from 1 have 0: "em \<in> set (fst (step EndsAll (at 5000)
                       (FromClient kiosk1 (CrewSignOnMsg (Some (p\<lparr> payloadKioskId := JStr ''K2'' \<rparr>))))
                       registered))"
    by (simp add: on_crew_sign_on_def)
  have 3: "crewAttribution em = Some (JStr ''K1'')" by (simp add: em_def)
  have 4: "isNonEmptyString (JStr ''K2'')" "isNonEmptyString (JStr ''K1'')"
    by (simp_all add: isNonEmptyString_def)
  from crew_broadcast_attribution [where em = em and d = EndsAll and e = "at 5000"
         and ev = "FromClient kiosk1 (CrewSignOnMsg (Some (p\<lparr> payloadKioskId := JStr ''K2'' \<rparr>)))"
         and b = registered and v = "JStr ''K1''" and x = "JStr ''K2''" and y = "JStr ''K1''"
         and kind = CrewSignOn and c = kiosk1 and p = p and ?em1.0 = em and ?em2.0 = em
         and ?v1.0 = "JStr ''K1''" and ?v2.0 = "JStr ''K1''"] 0 1 2 3 4
  have 5: "\<exists>c m. FromClient kiosk1 (CrewSignOnMsg (Some (p\<lparr> payloadKioskId := JStr ''K2'' \<rparr>))) =
                FromClient c m \<and> JStr ''K1'' = JStr (clientId c)"
    and 6: "crewEvent CrewSignOn (at 5000) kiosk1 (Some (p\<lparr> payloadKioskId := JStr ''K2'' \<rparr>)) registered =
      crewEvent CrewSignOn (at 5000) kiosk1 (Some (p\<lparr> payloadKioskId := JStr ''K1'' \<rparr>)) registered"
    by blast+
  from 0 1 2 3 4 5 6 show ?thesis
    unfolding Let_def p_def [symmetric] em_def [symmetric] by blast
qed

section \<open>Signaling\<close>

lemma forward_from_monitor:
  assumes "role c = MONITOR"
    and "ToSocket sid (Signal k from v) \<in> set (fst (forwardSignal kind e c targetId blob b))"
  shows "\<exists>s t. Map_get (sessions b) targetId = Some s \<and> status s = Active \<and>
               monitorSocketId s = socketIdOf c \<and>
               getKiosk targetId (kiosks b) = Some t \<and> sid = socketId t \<and>
               from = clientId c \<and> k = kind \<and> v = blob"
  using assms unfolding forwardSignal_def Let_def case_prod_beta
  by (auto simp: emitError_def hasActiveSession_def getSession_def
           split: option.splits if_splits)

lemma forward_from_kiosk:
  assumes "role c = KIOSK"
    and "ToSocket sid (Signal k from v) \<in> set (fst (forwardSignal kind e c targetId blob b))"
  shows "\<exists>s t. Map_get (sessions b) (clientId c) = Some s \<and> status s = Active \<and>
               kioskId s = clientId c \<and>
               getMonitor targetId (monitors b) = Some t \<and> sid = socketId t \<and>
               from = clientId c \<and> k = kind \<and> v = blob"
  using assms unfolding forwardSignal_def Let_def case_prod_beta
  by (auto simp: emitError_def hasActiveSession_def getSession_def
           split: option.splits if_splits)

text \<open>
  Claim C2, at a concrete run.  Kiosk K1 and monitors M1 and M2 register, M1 starts to
  monitor K1, then K1 sends an offer addressed to M2.  The offer is delivered to the socket
  of M2, while the only session of K1 names M1 and its socket: the kiosk branch of the
  ownership guard compares the key of the session with the sender, and never the target
  with the monitor of the session.
\<close>

theorem kiosk_offer_reaches_foreign_monitor:
  "run d
     [(at 1000, FromClient kiosk1 RegisterKiosk),
      (at 1200, FromClient monitor1 RegisterMonitor), (at 1300, FromClient monitor2 RegisterMonitor),
      (at 2000, FromClient monitor1 (StartMonitoring ''K1'')),
      (at 3000, FromClient kiosk1 (OfferMsg ''M2'' (JObj ''sdp'')))] initial =
   ([ToRoom ''monitors'' (KioskOnline ''K1'' 1000), ToSocket ''sk1'' (KioskRegistered ''K1'' 1000),
     ToSocket ''sm1'' (MonitorRegistered ''M1'' [(''K1'', 1000)] 1200),
     ToSocket ''sm2'' (MonitorRegistered ''M2'' [(''K1'', 1000)] 1300),
     ToSocket ''sm1'' (MonitoringStarted ''K1'' ''K1'' (Some 2000) 2000),
     ToSocket ''sm2'' (Signal Offer ''K1'' (JObj ''sdp''))],
    \<lparr> kiosks = [(''K1'', entry ''K1'' ''sk1'' 1000)],
      monitors = [(''M1'', entry ''M1'' ''sm1'' 1200), (''M2'', entry ''M2'' ''sm2'' 1300)],
      sessions = [(''K1'', sessionOf ''K1'' ''M1'' ''sm1'' 2000 \<lparr> lastActivityAt := 3000 \<rparr>)],
      heartbeatStore = [], rateLimitStore = [(''K1:offer'', [3000])] \<rparr>)"
  by (simp add: handler_defs state_defs example_defs Let_def)

section \<open>Registration\<close>

text \<open>
  Claim C4, at a concrete run.  A connection with role KIOSK that never sent
  \<open>register-kiosk\<close> sends \<open>heartbeat-ping\<close> to a fresh broker: a heartbeat entry is stored
  for it and it is answered with \<open>heartbeat-pong\<close>.  The same connection sending a crew
  event is refused with \<open>CLIENT_NOT_REGISTERED\<close> and the broker stays as it was.
\<close>

theorem heartbeat_from_unregistered_kiosk:
  "getKiosk ''K1'' (kiosks initial) = None \<and>
   run d [(at 1000, FromClient kiosk1 HeartbeatPing)] initial =
     ([ToSocket ''sk1'' (HeartbeatPong 1000)], initial \<lparr> heartbeatStore := [(''K1'', 1000)] \<rparr>) \<and>
   run d [(at 1000, FromClient kiosk1 (CrewSignOnMsg p))] initial =
     ([ToSocket ''sk1'' (Error CLIENT_NOT_REGISTERED NoDetails)], initial)"
  by (simp add: handler_defs state_defs example_defs Let_def)

text \<open>
  The session handlers do not ask for registration either: a monitor connection that never
  sent \<open>register-monitor\<close> opens a session on a registered kiosk.
\<close>

lemma unregistered_monitor_starts_session:
  "run d [(at 1000, FromClient kiosk1 RegisterKiosk),
          (at 2000, FromClient monitor1 (StartMonitoring ''K1''))] initial =
   ([ToRoom ''monitors'' (KioskOnline ''K1'' 1000), ToSocket ''sk1'' (KioskRegistered ''K1'' 1000),
     ToSocket ''sm1'' (MonitoringStarted ''K1'' ''K1'' (Some 2000) 2000)],
    \<lparr> kiosks = [(''K1'', entry ''K1'' ''sk1'' 1000)], monitors = [],
      sessions = [(''K1'', sessionOf ''K1'' ''M1'' ''sm1'' 2000)],
      heartbeatStore = [], rateLimitStore = [] \<rparr>)"
  by (simp add: handler_defs state_defs example_defs Let_def)

section \<open>Disconnect\<close>

lemma endEach_filter:
  "[] \<notin> set kids \<Longrightarrow> snd (endEach kids t acc ss) = filter (\<lambda>(k, s). k \<notin> set kids) ss"
proof (induction kids arbitrary: acc ss)
  case Nil
  then show ?case by simp
next
  case (Cons kid kids)
  then have k: "kid \<noteq> []" and r: "[] \<notin> set kids" by auto
  have e: "snd (endSession kid t ss) = filter (\<lambda>(k, s). k \<noteq> kid) ss"
  proof (cases "Map_get ss kid")
    case None
    then have "kid \<notin> fst ` set ss" by (simp add: map_of_eq_None_iff)
    then have "filter (\<lambda>(k, s). k \<noteq> kid) ss = ss"
      by (force simp: filter_id_conv)
    with None k show ?thesis by (simp add: endSession_def)
  next
    case (Some s)
    have "filter (\<lambda>(k', _). kid \<noteq> k') ss = filter (\<lambda>(k, s). k \<noteq> kid) ss"
      by (rule filter_cong) auto
    with Some k show ?thesis
      by (simp add: endSession_def AList.delete_eq)
  qed
  have "snd (endEach (kid # kids) t acc ss) =
        filter (\<lambda>(k, s). k \<notin> set kids) (snd (endSession kid t ss))"
    using Cons.IH[OF r] by (cases "endSession kid t ss") (auto split: option.splits)
  also have "\<dots> = filter (\<lambda>(k, s). k \<notin> set (kid # kids)) ss"
    unfolding e by (auto intro: filter_cong)
  finally show ?case .
qed

lemma endSessionByMonitorSocket_clears:
  assumes "sessions_ok ss" and "msid \<noteq> []"
    and "(k, s) \<in> set (snd (endSessionByMonitorSocket msid t ss))"
  shows "monitorSocketId s \<noteq> msid \<and> (k, s) \<in> set ss"
proof -
  let ?kids = "map fst (filter (\<lambda>(kid, s). monitorSocketId s = msid) ss)"
  from assms(1) have "[] \<notin> set ?kids" by (auto simp: sessions_ok_def)
  from endEach_filter[OF this, of t "[]" ss] assms(2,3)
  have "(k, s) \<in> set (filter (\<lambda>(k, s). k \<notin> set ?kids) ss)"
    by (simp add: endSessionByMonitorSocket_def)
  then show ?thesis by force
qed

lemma deleteKeys_filter: "deleteKeys keys store = filter (\<lambda>(k, v). k \<notin> set keys) store"
  by (induction keys arbitrary: store) (auto simp: AList.delete_eq case_prod_beta intro: filter_cong)

lemma resetAllRateLimits_clears:
  "cid \<noteq> [] \<Longrightarrow> (key, v) \<in> set (resetAllRateLimits cid store) \<Longrightarrow>
   \<not> prefix (cid @ '':'') key"
  by (force simp: resetAllRateLimits_def deleteKeys_filter)

text \<open>
  Under the draft that collects the keys first, a monitor's disconnect leaves no session
  of its socket, no registry entry and no rate counter of the client.
\<close>

lemma monitor_disconnect_ends_all:
  assumes "sessions_ok (sessions b)" and "role c = MONITOR"
    and "clientId c \<noteq> []" and "socketIdOf c \<noteq> []"
  shows "(\<forall>(k, s) \<in> set (sessions (snd (on_disconnect e c b))). monitorSocketId s \<noteq> socketIdOf c) \<and>
         \<not> Map_has (monitors (snd (on_disconnect e c b))) (clientId c) \<and>
         (\<forall>(key, v) \<in> set (rateLimitStore (snd (on_disconnect e c b))).
            \<not> prefix (clientId c @ '':'') key)"
  using assms endSessionByMonitorSocket_clears[OF assms(1,4)]
        resetAllRateLimits_clears[OF assms(3)]
  by (auto simp: on_disconnect_def Let_def case_prod_beta removeMonitor_def delete_conv')

lemma kiosk_disconnect_clears:
  assumes "role c = KIOSK" and "clientId c \<noteq> []"
  shows "\<not> Map_has (kiosks (snd (handle d e c Disconnect b))) (clientId c) \<and>
         \<not> Map_has (sessions (snd (handle d e c Disconnect b))) (clientId c) \<and>
         \<not> Map_has (heartbeatStore (snd (handle d e c Disconnect b))) (clientId c) \<and>
         (\<forall>(key, v) \<in> set (rateLimitStore (snd (handle d e c Disconnect b))).
            \<not> prefix (clientId c @ '':'') key)"
  using assms resetAllRateLimits_clears[OF assms(2)]
  by (cases d)
     (auto simp: on_disconnect_def on_disconnect_first_def disconnectKiosk_def Let_def
        case_prod_beta removeKiosk_def removeHeartbeat_def endSessionByKiosk_def endSession_def
        delete_conv' split: option.splits)

text \<open>
  Claim C6, at a concrete run of the draft of lines 682-741 with 378-390.  Monitor M1
  registers and starts to monitor the two kiosks K1 and K2 over one connection, then
  disconnects.  The session of K2, owned by the socket that has gone, is still in the
  session map afterwards, naming M1 and its socket; only the first session was ended.
\<close>

theorem monitor_disconnect_leaves_session:
  "snd (run EndsFirst
     [(at 1000, FromClient kiosk1 RegisterKiosk), (at 1100, FromClient kiosk2 RegisterKiosk),
      (at 1200, FromClient monitor1 RegisterMonitor),
      (at 2000, FromClient monitor1 (StartMonitoring ''K1'')),
      (at 2100, FromClient monitor1 (StartMonitoring ''K2'')),
      (at 3000, FromClient monitor1 Disconnect)] initial) =
   \<lparr> kiosks = [(''K1'', entry ''K1'' ''sk1'' 1000), (''K2'', entry ''K2'' ''sk2'' 1100)],
     monitors = [], sessions = [(''K2'', sessionOf ''K2'' ''M1'' ''sm1'' 2100)],
     heartbeatStore = [], rateLimitStore = [] \<rparr>"
  by (simp add: handler_defs state_defs example_defs Let_def)

text \<open>The same run under the other draft ends both sessions.\<close>

lemma monitor_disconnect_other_draft:
  "snd (run EndsAll
     [(at 1000, FromClient kiosk1 RegisterKiosk), (at 1100, FromClient kiosk2 RegisterKiosk),
      (at 1200, FromClient monitor1 RegisterMonitor),
      (at 2000, FromClient monitor1 (StartMonitoring ''K1'')),
      (at 2100, FromClient monitor1 (StartMonitoring ''K2'')),
      (at 3000, FromClient monitor1 Disconnect)] initial) =
   \<lparr> kiosks = [(''K1'', entry ''K1'' ''sk1'' 1000), (''K2'', entry ''K2'' ''sk2'' 1100)],
     monitors = [], sessions = [], heartbeatStore = [], rateLimitStore = [] \<rparr>"
  by (simp add: handler_defs state_defs example_defs Let_def)

section \<open>Rate limiting\<close>

lemma cleanup_entries:
  "entriesOf (cleanupOldEntries cid ev t store) (rateKey cid ev) = recentOf store (rateKey cid ev) t"
  by (auto simp: cleanupOldEntries_def entriesOf_def recentOf_def Let_def update_conv' delete_conv'
           split: option.splits)


lemma recent_idem:
  "filter (\<lambda>x. x > t - 60000) (recentOf store key t) = recentOf store key t"
  by (simp add: recentOf_def)


lemma checkRateLimit_allowed:
  assumes "cid \<noteq> []" and "ev \<noteq> []"
  shows "allowed (fst (checkRateLimit cid ev None t store)) \<longleftrightarrow>
         (\<exists>L. getRateLimit ev = Ceiling L \<and> int (length (recentOf store (rateKey cid ev) t)) < L)"
proof -
  have e: "(case Map_get (cleanupOldEntries cid ev t store) (rateKey cid ev) of
              Some es \<Rightarrow> es | None \<Rightarrow> []) = recentOf store (rateKey cid ev) t"
    using cleanup_entries[of cid ev t store] by (simp add: entriesOf_def)
  show ?thesis using assms
    by (cases "getRateLimit ev") (simp_all add: checkRateLimit_def Let_def e recent_idem)
qed



lemma checkRateLimit_empty:
  "cid = [] \<or> ev = [] \<Longrightarrow>
   checkRateLimit cid ev None t store =
     (\<lparr> allowed = False, remaining = Some 0, resetAt = None, current = 0, limit = NoNumber \<rparr>,
      store)"
  by (auto simp: checkRateLimit_def)











lemma getRateLimit_inherited: "ev \<in> set INHERITED_NAMES \<Longrightarrow> getRateLimit ev = NoNumber"
  by (auto simp: getRateLimit_def DEFAULT_LIMITS_def INHERITED_NAMES_def)

text \<open>Under a name every object inherits, no call is ever allowed.\<close>

lemma inherited_name_never_allowed:
  "ev \<in> set INHERITED_NAMES \<Longrightarrow> \<not> allowed (fst (checkRateLimit cid ev None t store))"
  by (cases "cid = [] \<or> ev = []")
     (auto simp: checkRateLimit_empty checkRateLimit_allowed getRateLimit_inherited)




section \<open>Session timeout scan\<close>

lemma timedOutLoop_eq:
  "timedOutLoop timeoutMs t ss acc =
     acc @ map (\<lambda>(k, s). s\<lparr> kioskId := k \<rparr>)
             (filter (\<lambda>(k, s). status s = Active \<and> t - lastActivityAt s > timeoutMs) ss)"
  by (induction timeoutMs t ss acc rule: timedOutLoop.induct) (auto simp: Let_def)

lemma getTimedOutSessions_eq:
  "getTimedOutSessions timeoutMs t ss =
     map (\<lambda>(k, s). s\<lparr> kioskId := k \<rparr>)
       (filter (\<lambda>(k, s). status s = Active \<and> t - lastActivityAt s > timeoutMs) ss)"
  by (simp add: getTimedOutSessions_def timedOutLoop_eq)

lemma timedOutLoop_heap_eq:
  assumes "\<forall>(k, r) \<in> set entries. r < length h0" and "prefix h0 h"
  shows "timedOutLoop_heap timeoutMs t entries h acc =
     (acc @ [length h ..< length h + length (getTimedOutSessions timeoutMs t (deref h0 entries))],
      h @ getTimedOutSessions timeoutMs t (deref h0 entries))"
  using assms
proof (induction entries arbitrary: h acc)
  case Nil
  then show ?case by (simp add: getTimedOutSessions_eq deref_def)
next
  case (Cons x entries)
  obtain kid r where x: "x = (kid, r)" by (cases x)
  from Cons.prems x have r: "r < length h0" and rest: "\<forall>(k, r) \<in> set entries. r < length h0"
    by auto
  from Cons.prems(2) r have same: "h ! r = h0 ! r"
    by (auto simp: prefix_def nth_append)
  show ?case
  proof (cases "status (h0 ! r) = Active \<and> t - lastActivityAt (h0 ! r) > timeoutMs")
    case False
    then have "timedOutLoop_heap timeoutMs t (x # entries) h acc =
               timedOutLoop_heap timeoutMs t entries h acc"
      by (auto simp: x same Let_def)
    moreover from False have "getTimedOutSessions timeoutMs t (deref h0 (x # entries)) =
               getTimedOutSessions timeoutMs t (deref h0 entries)"
      by (auto simp: getTimedOutSessions_eq deref_def x)
    ultimately show ?thesis using Cons.IH[OF rest Cons.prems(2)] by simp
  next
    case True
    let ?obj = "(h0 ! r)\<lparr> kioskId := kid \<rparr>"
    from True have step: "timedOutLoop_heap timeoutMs t (x # entries) h acc =
               timedOutLoop_heap timeoutMs t entries (h @ [?obj]) (acc @ [length h])"
      by (simp add: x same Let_def alloc_def)
    from True have res: "getTimedOutSessions timeoutMs t (deref h0 (x # entries)) =
               ?obj # getTimedOutSessions timeoutMs t (deref h0 entries)"
      by (simp add: getTimedOutSessions_eq deref_def x)
    from Cons.prems(2) have p: "prefix h0 (h @ [?obj])" by (rule prefix_prefix)
    have u: "length h # [Suc (length h) ..< Suc (length h + n)] = [length h ..< Suc (length h + n)]" for n
      by (rule upt_conv_Cons[symmetric]) simp
    show ?thesis
      unfolding step res Cons.IH[OF rest p]
      by (simp add: u del: upt_Suc)
  qed
qed

text \<open>
  Claim C9.  \<open>getTimedOutSessions\<close> returns, in the order of the map, the stored sessions
  that are active and whose \<open>now - lastActivityAt\<close> is greater than the threshold; a
  session whose inactivity equals the threshold is not returned.  It changes nothing and
  returns copies: with object identity made explicit, the heap after the call extends the
  heap before it, the map refers to the same unchanged objects, every returned reference
  is new (no entry of the map holds it), and the objects returned are the result of the
  function on the store.
\<close>

theorem timed_out_sessions_read_only:
  "getTimedOutSessions timeoutMs t ss =
     map (\<lambda>(k, s). s\<lparr> kioskId := k \<rparr>)
       (filter (\<lambda>(k, s). status s = Active \<and> t - lastActivityAt s > timeoutMs) ss) \<and>
   ((k, s) \<in> set ss \<and> t - lastActivityAt s = timeoutMs \<longrightarrow>
      s\<lparr> kioskId := k \<rparr> \<notin> set (getTimedOutSessions timeoutMs t ss)) \<and>
   ((\<forall>(k, r) \<in> set entries. r < length h) \<longrightarrow>
      (case getTimedOutSessions_heap timeoutMs t entries h of
         (refs, h') \<Rightarrow>
           prefix h h' \<and> deref h' entries = deref h entries \<and>
           (\<forall>r \<in> set refs. length h \<le> r \<and> r < length h' \<and> r \<notin> snd ` set entries) \<and>
           map ((!) h') refs = getTimedOutSessions timeoutMs t (deref h entries)))"
proof (intro conjI impI)
  show "getTimedOutSessions timeoutMs t ss =
     map (\<lambda>(k, s). s\<lparr> kioskId := k \<rparr>)
       (filter (\<lambda>(k, s). status s = Active \<and> t - lastActivityAt s > timeoutMs) ss)"
    by (rule getTimedOutSessions_eq)
next
  assume a: "(k, s) \<in> set ss \<and> t - lastActivityAt s = timeoutMs"
  have "\<forall>x \<in> set (getTimedOutSessions timeoutMs t ss). t - lastActivityAt x > timeoutMs"
    by (auto simp: getTimedOutSessions_eq)
  with a show "s\<lparr> kioskId := k \<rparr> \<notin> set (getTimedOutSessions timeoutMs t ss)"
    by fastforce
next
  assume wf: "\<forall>(k, r) \<in> set entries. r < length h"
  let ?res = "getTimedOutSessions timeoutMs t (deref h entries)"
  have eq: "getTimedOutSessions_heap timeoutMs t entries h =
            ([length h ..< length h + length ?res], h @ ?res)"
    unfolding getTimedOutSessions_heap_def
    using timedOutLoop_heap_eq[OF wf, of h timeoutMs t "[]"] by simp
  have d: "deref (h @ ?res) entries = deref h entries"
    using wf unfolding deref_def by (intro map_cong) (auto simp: nth_append)
  have n: "map ((!) (h @ ?res)) [length h ..< length h + length ?res] = ?res"
    by (intro nth_equalityI) (simp_all add: nth_append)
  from wf have f: "\<forall>r \<in> set [length h ..< length h + length ?res]. r \<notin> snd ` set entries"
    by fastforce
  show "case getTimedOutSessions_heap timeoutMs t entries h of
         (refs, h') \<Rightarrow>
           prefix h h' \<and> deref h' entries = deref h entries \<and>
           (\<forall>r \<in> set refs. length h \<le> r \<and> r < length h' \<and> r \<notin> snd ` set entries) \<and>
           map ((!) h') refs = getTimedOutSessions timeoutMs t (deref h entries)"
    unfolding eq using d n f by simp
qed

theorem timed_out_sessions_read_only_witness:
  "let s1 = sessionOf ''K1'' ''M1'' ''sm1'' 0;
       s2 = sessionOf ''K2'' ''M2'' ''sm2'' 1;
       s3 = sessionOf ''K3'' ''M1'' ''sm1'' 200000;
       ss = [(''K1'', s1), (''K2'', s2), (''K3'', s3)];
       h = [s1, s2, s3];
       entries = [(''K1'', 0), (''K2'', 1), (''K3'', 2)]
   in (''K2'', s2) \<in> set ss \<and> 300001 - lastActivityAt s2 = 300000 \<and>
      list_all (\<lambda>(k, r). r < length h) entries \<and>
      getTimedOutSessions 300000 300001 ss = [s1] \<and>
      s2\<lparr> kioskId := ''K2'' \<rparr> \<notin> set (getTimedOutSessions 300000 300001 ss) \<and>
      getTimedOutSessions_heap 300000 300001 entries h = ([3], [s1, s2, s3, s1])"
proof -
  define s1 where "s1 = sessionOf ''K1'' ''M1'' ''sm1'' 0"
  define s2 where "s2 = sessionOf ''K2'' ''M2'' ''sm2'' 1"
  define s3 where "s3 = sessionOf ''K3'' ''M1'' ''sm1'' 200000"
  define ss where "ss = [(''K1'', s1), (''K2'', s2), (''K3'', s3)]"
  define h where "h = [s1, s2, s3]"
  define entries where "entries = [(''K1'', 0::nat), (''K2'', 1), (''K3'', 2)]"
  have m: "(''K2'', s2) \<in> set ss" by (simp add: ss_def)
  have b: "300001 - lastActivityAt s2 = 300000" by (simp add: s2_def sessionOf_def)
  have wf: "\<forall>(k, r) \<in> set entries. r < length h" by (simp add: entries_def h_def)
  have dr: "deref h entries = ss" by (simp add: deref_def entries_def h_def ss_def)
  note inst = timed_out_sessions_read_only [of 300000 300001 ss "''K2''" s2 entries h]
  from conjunct1 [OF inst] have 1: "getTimedOutSessions 300000 300001 ss = [s1]"
    by (simp add: ss_def s1_def s2_def s3_def sessionOf_def)
  from conjunct1 [OF conjunct2 [OF inst]] m b
  have 2: "s2\<lparr> kioskId := ''K2'' \<rparr> \<notin> set (getTimedOutSessions 300000 300001 ss)"
    by (elim impE) (rule conjI)
  from conjunct2 [OF conjunct2 [OF inst]] wf
  have 3: "case getTimedOutSessions_heap 300000 300001 entries h of
         (refs, h') \<Rightarrow>
           prefix h h' \<and> deref h' entries = deref h entries \<and>
           (\<forall>r \<in> set refs. length h \<le> r \<and> r < length h' \<and> r \<notin> snd ` set entries) \<and>
           map ((!) h') refs = getTimedOutSessions 300000 300001 (deref h entries)"
    by (rule mp)
  have 4: "getTimedOutSessions_heap 300000 300001 entries h = ([3], [s1, s2, s3, s1])"
  proof -
    obtain refs h' where g: "getTimedOutSessions_heap 300000 300001 entries h = (refs, h')"
      by (cases "getTimedOutSessions_heap 300000 300001 entries h")
    from 3 g have p: "prefix h h'" and r: "\<forall>r \<in> set refs. length h \<le> r \<and> r < length h'"
      and v: "map ((!) h') refs = [s1]" by (simp_all add: dr 1)
    show ?thesis
      by (simp add: getTimedOutSessions_heap_def entries_def h_def alloc_def s1_def s2_def s3_def
            sessionOf_def Let_def)
  qed
  from wf have wf': "list_all (\<lambda>(k, r). r < length h) entries"
    by (simp add: list_all_iff)
  from m b wf' 1 2 4 show ?thesis
    unfolding Let_def s1_def [symmetric] s2_def [symmetric] s3_def [symmetric] ss_def [symmetric]
      h_def [symmetric] entries_def [symmetric] by blast
qed

end
